theory Spec2Isabelle
  imports Complex_Main "HOL-Library.Sublist"
begin

section \<open>Dual-model analysis aggregation (src/lib/analyzer.ts)\<close>

subsection \<open>JavaScript numbers\<close>

text \<open>
  A JavaScript number is an IEEE 754 double: a finite value, given here by the
  rational it denotes, or \<open>Infinity\<close>, \<open>-Infinity\<close>, \<open>NaN\<close>. The sign of zero
  is not modelled: nothing in \<open>getAnalysis\<close> tells \<open>-0\<close> from \<open>0\<close>.
\<close>

datatype number = Num rat | Infinity | NegInfinity | NaN

text \<open>
  The integer nearest to a rational, a tie going to the even neighbour: the rounding
  of the significand in the default IEEE mode.
\<close>

definition round_half_even :: "rat \<Rightarrow> int" where
  "round_half_even z =
     (let f = \<lfloor>z\<rfloor>; r = z - of_int f
      in if r < 1 / 2 then f else if 1 / 2 < r then f + 1 else if even f then f else f + 1)"

text \<open>
  The spacing of the doubles around \<open>x\<close>: the least power of two \<open>q\<close>, from
  \<open>2^-1074\<close> (the spacing of the subnormal numbers) up to \<open>2^971\<close> (that of the
  largest binade), with \<open>|x| < 2^53 * q\<close>. The scan doubles \<open>q\<close> at most 2045 times.
\<close>

primrec ulp_scan :: "nat \<Rightarrow> rat \<Rightarrow> rat \<Rightarrow> rat" where
  "ulp_scan 0 q x = q"
| "ulp_scan (Suc fuel) q x = (if \<bar>x\<bar> < 2 ^ 53 * q then q else ulp_scan fuel (2 * q) x)"

definition ulp :: "rat \<Rightarrow> rat" where
  "ulp x = ulp_scan 2045 (1 / 2 ^ 1074) x"

text \<open>
  The double an exact result \<open>x\<close> is rounded to (round to nearest, ties to even):
  the multiple of the spacing nearest to \<open>x\<close>, and an infinity when that reaches
  \<open>2^1024\<close>.
\<close>

definition to_double :: "rat \<Rightarrow> number" where
  "to_double x =
     (let q = ulp x; y = of_int (round_half_even (x / q)) * q
      in if 2 ^ 1024 \<le> y then Infinity
         else if y \<le> - (2 ^ 1024) then NegInfinity
         else Num y)"

text \<open>
  \<open>x + y\<close>, \<open>x / 2\<close>, \<open>Math.round(x)\<close> and \<open>x < y\<close> on numbers. The sum and the
  quotient are the exact results rounded to a double. \<open>Math.round\<close> is exact: the
  integer nearest to the argument, a tie going towards \<open>+\<infinity>\<close> (ECMAScript
  21.3.2.28), that is \<open>floor (x + 1/2)\<close>, which is a double whenever \<open>x\<close> is one.
  A comparison with \<open>NaN\<close> is false.
\<close>

fun js_add :: "number \<Rightarrow> number \<Rightarrow> number" where
  "js_add NaN y = NaN"
| "js_add x NaN = NaN"
| "js_add Infinity NegInfinity = NaN"
| "js_add NegInfinity Infinity = NaN"
| "js_add Infinity y = Infinity"
| "js_add x Infinity = Infinity"
| "js_add NegInfinity y = NegInfinity"
| "js_add x NegInfinity = NegInfinity"
| "js_add (Num a) (Num b) = to_double (a + b)"

fun js_div_2 :: "number \<Rightarrow> number" where
  "js_div_2 (Num a) = to_double (a / 2)"
| "js_div_2 x = x"

fun Math_round :: "number \<Rightarrow> number" where
  "Math_round (Num x) = Num (of_int \<lfloor>x + 1 / 2\<rfloor>)"
| "Math_round x = x"

fun js_less :: "number \<Rightarrow> number \<Rightarrow> bool" where
  "js_less NaN y = False"
| "js_less x NaN = False"
| "js_less (Num a) (Num b) = (a < b)"
| "js_less Infinity y = False"
| "js_less x Infinity = True"
| "js_less NegInfinity y = (y \<noteq> NegInfinity)"
| "js_less x NegInfinity = False"

subsection \<open>The combined analysis\<close>

text \<open>
  The interface \<open>AnalysisResult\<close> as TypeScript declares it. The verdict is a
  plain string: nothing at run time restricts it to the three literals of the
  declared union type.
\<close>

record AnalysisResult =
  verdict :: string
  true_rate :: number
  reasoning :: "string list"
  sources :: "string list"

text \<open>
  The combined result. Its fields carry the prefix \<open>c_\<close>, which keeps them apart
  from the fields of the same names in \<open>AnalysisResult\<close>.
\<close>

record models =
  openai :: AnalysisResult
  gemini :: AnalysisResult

record CombinedAnalysis =
  c_true_rate :: number
  c_verdict :: string
  c_reasoning :: "string list"
  c_sources :: "string list"
  c_models :: models

text \<open>
  \<open>[...new Set(xs)]\<close>: a \<open>Set\<close> keeps its elements in insertion order, so the
  first occurrence of each element stays and later ones are dropped.
\<close>

definition new_Set :: "'a list \<Rightarrow> 'a list" where
  "new_Set xs = fold (\<lambda>x acc. if x \<in> set acc then acc else acc @ [x]) xs []"

text \<open>
  The body of \<open>getAnalysis\<close> after \<open>Promise.all\<close>: the two awaited provider
  results \<open>openaiRes\<close> and \<open>geminiRes\<close> are combined. \<open>avgTrueRate\<close> is
  \<open>Math.round((openaiRes.true_rate + geminiRes.true_rate) / 2)\<close>.
\<close>

definition avgTrueRate :: "AnalysisResult \<Rightarrow> AnalysisResult \<Rightarrow> number" where
  "avgTrueRate openaiRes geminiRes =
     Math_round (js_div_2 (js_add (true_rate openaiRes) (true_rate geminiRes)))"

definition getAnalysis :: "AnalysisResult \<Rightarrow> AnalysisResult \<Rightarrow> CombinedAnalysis" where
  "getAnalysis openaiRes geminiRes =
     (let avg = avgTrueRate openaiRes geminiRes;
          verdict = (if js_less (Num 70) avg then ''True''
                     else if js_less avg (Num 30) then ''False'' else ''Mixed'');
          combinedReasoning =
            map (\<lambda>r. ''OpenAI: '' @ r) (reasoning openaiRes) @
            map (\<lambda>r. ''Gemini: '' @ r) (reasoning geminiRes);
          combinedSources = new_Set (sources openaiRes @ sources geminiRes)
      in \<lparr> c_true_rate = avg,
           c_verdict = verdict,
           c_reasoning = combinedReasoning,
           c_sources = combinedSources,
           c_models = \<lparr> openai = openaiRes, gemini = geminiRes \<rparr> \<rparr>)"

section \<open>The two provider calls (src/lib/analyzer.ts)\<close>

text \<open>
  What \<open>JSON.parse\<close> returns. A number is given as an integer: the code tests it for zero
  and passes it on. The members of an
  object are kept in the order of the text; a name that occurs twice has the value of
  its last occurrence.
\<close>

datatype json =
    JNull
  | JBool bool
  | JNum int
  | JStr string
  | JArr "json list"
  | JObj "(string \<times> json) list"

text \<open>
  The exceptions that can reach the \<open>catch\<close> blocks: a \<open>TypeError\<close> for reading a
  property of \<open>null\<close> or \<open>undefined\<close>, the \<open>SyntaxError\<close> of \<open>JSON.parse\<close>, the
  \<open>Error\<close> the Gemini path throws itself, and whatever a provider's client rejects
  with.
\<close>

datatype error = TypeError | SyntaxError | Error string | ProviderError string

text \<open>
  A JavaScript value read from the parsed response: \<open>None\<close> is \<open>undefined\<close>.
  \<open>truthy\<close> is ECMAScript's \<open>ToBoolean\<close> on these values.
\<close>

fun truthy :: "json option \<Rightarrow> bool" where
  "truthy None = False"
| "truthy (Some JNull) = False"
| "truthy (Some (JBool b)) = b"
| "truthy (Some (JNum n)) = (n \<noteq> 0)"
| "truthy (Some (JStr s)) = (s \<noteq> [])"
| "truthy (Some (JArr xs)) = True"
| "truthy (Some (JObj kvs)) = True"

text \<open>\<open>x || d\<close>: the left operand when it is truthy, the right one otherwise.\<close>

definition js_or :: "json option \<Rightarrow> json \<Rightarrow> json" where
  "js_or x d = (case x of None \<Rightarrow> d | Some v \<Rightarrow> if truthy (Some v) then v else d)"

text \<open>
  Reading one of the properties \<open>verdict\<close>, \<open>true_rate\<close>, \<open>reasoning\<close>, \<open>sources\<close>
  of a parsed value: a \<open>TypeError\<close> on \<open>null\<close>, the member of an object, and
  \<open>undefined\<close> on a missing member and on a number, boolean, string or array (whose
  prototypes have no property of these four names).
\<close>

fun get_prop :: "json \<Rightarrow> string \<Rightarrow> error + json option" where
  "get_prop JNull k = Inl TypeError"
| "get_prop (JObj kvs) k = Inr (map_of (rev kvs) k)"
| "get_prop v k = Inr None"

text \<open>
  The result object at run time (fields with the prefix \<open>js_\<close>). Its fields hold
  whatever the parsed response held: the declared type \<open>AnalysisResult\<close> is not
  checked.
\<close>

record js_AnalysisResult =
  js_verdict :: json
  js_true_rate :: json
  js_reasoning :: json
  js_sources :: json

text \<open>
  The object literal both functions return from a parsed response (lines 84--89 and
  141--146): each field is the response's field, or its default when that is falsy.
\<close>

definition normalized :: "json \<Rightarrow> error + js_AnalysisResult" where
  "normalized result =
     (case get_prop result ''verdict'' of
        Inl e \<Rightarrow> Inl e
      | Inr v \<Rightarrow>
     (case get_prop result ''true_rate'' of
        Inl e \<Rightarrow> Inl e
      | Inr t \<Rightarrow>
     (case get_prop result ''reasoning'' of
        Inl e \<Rightarrow> Inl e
      | Inr r \<Rightarrow>
     (case get_prop result ''sources'' of
        Inl e \<Rightarrow> Inl e
      | Inr s \<Rightarrow>
          Inr \<lparr> js_verdict = js_or v (JStr ''Mixed''),
                js_true_rate = js_or t (JNum 50),
                js_reasoning = js_or r (JArr [JStr ''Analysis unavailable'']),
                js_sources = js_or s (JArr []) \<rparr>))))"

text \<open>The neutral result returned when a provider is not configured or fails.\<close>

definition placeholder :: "string \<Rightarrow> js_AnalysisResult" where
  "placeholder line =
     \<lparr> js_verdict = JStr ''Mixed'',
       js_true_rate = JNum 50,
       js_reasoning = JArr [JStr line],
       js_sources = JArr [] \<rparr>"

text \<open>\<open>try { body } catch (error) { handler }\<close>.\<close>

definition try_catch :: "error + 'a \<Rightarrow> (error \<Rightarrow> error + 'a) \<Rightarrow> error + 'a" where
  "try_catch body handler = (case body of Inl e \<Rightarrow> handler e | Inr x \<Rightarrow> Inr x)"

text \<open>The text both prompts end with, after the web context.\<close>

definition prompt_steps :: string where
  \<open>prompt_steps = ''\<newline>\<newline>Steps:\<newline>1. Break down the claim into 2-3 key facts.\<newline>2. For each fact, reason: Is it verifiable? Cite 1-2 recent sources (real URLs if possible, e.g., from news sites like BBC, Reuters, or official .gov).\<newline>3. Assess evidence strength: Strong (multiple corroborating sources), Weak (conflicting/single source), None (unverifiable).\<newline>4. Calculate true_rate: Percentage (0-100) based on evidence (e.g., 90% if 2/3 facts strong).\<newline>\<newline>Output ONLY valid JSON: { "verdict": "True" if >70%, "False" if <30%, else "Mixed", "true_rate": 85, "reasoning": ["Bullet 1", "Bullet 2"], "sources": ["https://example.com/source1", "https://example.com/source2"] }.\<newline>\<newline>Be precise, unbiased, and cite diverse sources. Avoid speculation.''\<close>

definition openai_prompt :: "string \<Rightarrow> string \<Rightarrow> string \<Rightarrow> string" where
  "openai_prompt currentDate claim webContext =
     ''You are a neutral, expert fact-checker. Analyze this claim for truthfulness using logical steps and current web knowledge (as of ''
     @ currentDate @ ''). Claim: '' @ claim @ ''\<newline>\<newline>'' @ webContext @ prompt_steps"

definition gemini_prompt :: "string \<Rightarrow> string \<Rightarrow> string \<Rightarrow> string" where
  "gemini_prompt currentDate claim webContext =
     ''You are a neutral, expert fact-checker. Analyze this claim for truthfulness using logical steps and current web knowledge (as of ''
     @ currentDate @ ''). Cross-reference with OpenAI's style for consistency. Use your safety filters but prioritize factual depth. For real-time: Simulate querying search engines for latest data on key facts from claim.\<newline>\<newline>Claim: ''
     @ claim @ ''\<newline>\<newline>'' @ webContext @ prompt_steps"

text \<open>
  A chat completion, reduced to what the code reads: the \<open>message.content\<close> of each
  choice, which is a string or \<open>null\<close>.
\<close>

datatype ChatCompletion = ChatCompletion "string option list"

text \<open>\<open>content || '{}'\<close> on a string or \<open>null\<close>: the empty string is falsy.\<close>

definition content_or :: "string option \<Rightarrow> string \<Rightarrow> string" where
  "content_or content d = (case content of None \<Rightarrow> d | Some s \<Rightarrow> if s = [] then d else s)"

text \<open>
  \<open>analyzeWithOpenAI\<close>. The module variable \<open>openai\<close> (here \<open>openai_client\<close>) is
  \<open>None\<close> when no API key was configured, and otherwise the client's \<open>chat.completions.create\<close> as a function
  of the prompt, which returns a completion or throws. \<open>JSON_parse\<close> is
  \<open>JSON.parse\<close>, which returns a value or throws. \<open>currentDate\<close> is the date string
  the function reads from the clock. The result is \<open>Inl\<close> if the function throws.
\<close>

definition analyzeWithOpenAI ::
  "(string \<Rightarrow> error + ChatCompletion) option \<Rightarrow> (string \<Rightarrow> error + json) \<Rightarrow>
   string \<Rightarrow> string \<Rightarrow> string \<Rightarrow> error + js_AnalysisResult" where
  "analyzeWithOpenAI openai_client JSON_parse currentDate claim webContext =
     (case openai_client of
        None \<Rightarrow> Inr (placeholder ''OpenAI API key not configured'')
      | Some create \<Rightarrow>
          try_catch
            (case create (openai_prompt currentDate claim webContext) of
               Inl e \<Rightarrow> Inl e
             | Inr (ChatCompletion choices) \<Rightarrow>
                 (case choices of
                    [] \<Rightarrow> Inl TypeError
                  | content # _ \<Rightarrow>
                      (case JSON_parse (content_or content ''{}'') of
                         Inl e \<Rightarrow> Inl e
                       | Inr result \<Rightarrow> normalized result)))
            (\<lambda>error. Inr (placeholder ''OpenAI analysis temporarily unavailable'')))"

text \<open>
  \<open>text.match(/\{[\s\S]*\}/)\<close>: the match starts at the first \<open>{\<close> and, the star
  being greedy over every character, ends at the last \<open>}\<close> after it; there is no
  match when no \<open>}\<close> follows the first \<open>{\<close>.
\<close>

definition jsonMatch :: "string \<Rightarrow> string option" where
  "jsonMatch text =
     (case dropWhile (\<lambda>c. c \<noteq> CHR ''{'') text of
        [] \<Rightarrow> None
      | brace # rest \<Rightarrow>
          (let upto = rev (dropWhile (\<lambda>c. c \<noteq> CHR ''}'') (rev rest))
           in if upto = [] then None else Some (brace # upto)))"

text \<open>
  \<open>analyzeWithGemini\<close>. The module variable \<open>genAI\<close> is \<open>None\<close> when no API key was
  configured, and otherwise the model's \<open>generateContent\<close> followed by
  \<open>response.text()\<close> as a function of the prompt, which returns the text or throws.
\<close>

definition analyzeWithGemini ::
  "(string \<Rightarrow> error + string) option \<Rightarrow> (string \<Rightarrow> error + json) \<Rightarrow>
   string \<Rightarrow> string \<Rightarrow> string \<Rightarrow> error + js_AnalysisResult" where
  "analyzeWithGemini genAI JSON_parse currentDate claim webContext =
     (case genAI of
        None \<Rightarrow> Inr (placeholder ''Gemini API key not configured'')
      | Some generateContent \<Rightarrow>
          try_catch
            (case generateContent (gemini_prompt currentDate claim webContext) of
               Inl e \<Rightarrow> Inl e
             | Inr text \<Rightarrow>
                 (case jsonMatch text of
                    None \<Rightarrow> Inl (Error ''No JSON found in response'')
                  | Some m \<Rightarrow>
                      (case JSON_parse m of
                         Inl e \<Rightarrow> Inl e
                       | Inr parsed \<Rightarrow> normalized parsed)))
            (\<lambda>error. Inr (placeholder ''Gemini analysis temporarily unavailable'')))"

section \<open>Votes in the Post component (src/components/Post.tsx)\<close>

text \<open>
  Both versions of the component in the repository have the same vote state, the same
  \<open>handleVote\<close> and the same tally. A vote type is \<open>'true'\<close> or \<open>'fake'\<close>.
\<close>

datatype VoteType = VTrue | VFake

record Vote =
  id_vote :: string
  post_id :: string
  user_name :: string
  vote_type :: VoteType

text \<open>The state variables of the component that concern votes.\<close>

record PostState =
  votes :: "Vote list"
  userVote :: "VoteType option"
  isVoting :: bool
  optimisticVote :: "VoteType option"

text \<open>
  What the component does to the outside: the insert it sends to the \<open>votes\<close> table
  (post id, user name, vote type), a line on the console, a blocking alert.
\<close>

datatype effect =
    SupabaseInsert string string VoteType
  | ConsoleError
  | Alert string

text \<open>
  How the awaited insert ends: without an error, with an error object (whose \<open>code\<close>
  may be missing, as in the placeholder client of \<open>src/lib/supabase.ts\<close>), or by
  throwing.
\<close>

datatype insert_outcome = InsertOk | InsertError "string option" | InsertThrows

text \<open>
  The part of \<open>handleVote\<close> after the \<open>await\<close> (lines 117--132), on the state the
  component has by then.
\<close>

definition after_insert :: "insert_outcome \<Rightarrow> PostState \<Rightarrow> PostState \<times> effect list" where
  "after_insert outcome s =
     (case outcome of
        InsertOk \<Rightarrow> (s\<lparr>isVoting := False\<rparr>, [])
      | InsertError code \<Rightarrow>
          (s\<lparr>optimisticVote := None, isVoting := False\<rparr>,
           ConsoleError #
             (if code \<noteq> Some ''23505''
              then [Alert ''Failed to submit vote. Please try again.''] else []))
      | InsertThrows \<Rightarrow>
          (s\<lparr>optimisticVote := None, isVoting := False\<rparr>,
           [ConsoleError, Alert ''An unexpected error occurred. Please try again.'']))"

text \<open>
  \<open>handleVote\<close> for the post \<open>id'\<close> (the prop \<open>id\<close>) and the user \<open>currentUserName\<close>. \<open>supabase_insert\<close>
  is the storage service answering the insert. The result is the state when the
  handler has finished and the effects in their order.
\<close>

definition handleVote ::
  "string \<Rightarrow> string \<Rightarrow> (string \<Rightarrow> string \<Rightarrow> VoteType \<Rightarrow> insert_outcome) \<Rightarrow>
   VoteType \<Rightarrow> PostState \<Rightarrow> PostState \<times> effect list" where
  "handleVote id' currentUserName supabase_insert voteType s =
     (if isVoting s \<or> userVote s \<noteq> None \<or> optimisticVote s \<noteq> None then (s, [])
      else
        (let s1 = s\<lparr>optimisticVote := Some voteType, isVoting := True\<rparr>;
             outcome = supabase_insert id' currentUserName voteType;
             (s2, effects) = after_insert outcome s1
         in (s2, SupabaseInsert id' currentUserName voteType # effects)))"

text \<open>The tally shown on the two buttons (lines 165--174).\<close>

definition currentUserVote :: "PostState \<Rightarrow> VoteType option" where
  "currentUserVote s = (case optimisticVote s of Some v \<Rightarrow> Some v | None \<Rightarrow> userVote s)"

definition baseVotes :: "string \<Rightarrow> PostState \<Rightarrow> Vote list" where
  "baseVotes currentUserName s = filter (\<lambda>vote. user_name vote \<noteq> currentUserName) (votes s)"

definition trueVotes :: "string \<Rightarrow> PostState \<Rightarrow> nat" where
  "trueVotes currentUserName s =
     length (filter (\<lambda>vote. vote_type vote = VTrue) (baseVotes currentUserName s))
     + (if currentUserVote s = Some VTrue then 1 else 0)"

definition fakeVotes :: "string \<Rightarrow> PostState \<Rightarrow> nat" where
  "fakeVotes currentUserName s =
     length (filter (\<lambda>vote. vote_type vote = VFake) (baseVotes currentUserName s))
     + (if currentUserVote s = Some VFake then 1 else 0)"

section \<open>Incremental feed reconciliation (the Feed component that patches its list)\<close>

record PostData =
  id_post :: string
  author_name :: string
  content :: string
  image_url :: "string option"
  created_at :: string

text \<open>
  A change event of the \<open>posts\<close> table: \<open>DELETE\<close> carries the id of \<open>payload.old\<close>,
  \<open>INSERT\<close> and \<open>UPDATE\<close> carry \<open>payload.new\<close>.
\<close>

datatype payload = DELETE string | INSERT PostData | UPDATE PostData

text \<open>The callback \<open>subscribeToFeed\<close> registers, as a function on \<open>prevPosts\<close>.\<close>

definition subscribeToFeed :: "payload \<Rightarrow> PostData list \<Rightarrow> PostData list" where
  "subscribeToFeed event prevPosts =
     (case event of
        DELETE old_id \<Rightarrow> filter (\<lambda>post. id_post post \<noteq> old_id) prevPosts
      | INSERT new \<Rightarrow> new # prevPosts
      | UPDATE new \<Rightarrow> map (\<lambda>post. if id_post post = id_post new then new else post) prevPosts)"

section \<open>The storage layer (supabase/migrations)\<close>

text \<open>
  The tables \<open>posts\<close> and \<open>votes\<close> of the migration, rows in insertion order. The
  columns are \<open>NOT NULL\<close> as the field types say (\<open>image_url\<close> alone may be null),
  and the check \<open>vote_type IN ('true', 'fake')\<close> is the type \<open>VoteType\<close>. The
  \<open>created_at\<close> of a vote is left out: nothing reads it. The policies of the migration
  decide which role may run a statement; the model says what a statement does when it
  runs.
\<close>

record database =
  posts_table :: "PostData list"
  votes_table :: "Vote list"

text \<open>
  \<open>INSERT INTO votes\<close>. The primary key and \<open>UNIQUE(post_id, user_name)\<close> fail with
  SQLSTATE 23505 (unique violation); the foreign key \<open>post_id REFERENCES posts(id)\<close>,
  checked after them, fails with 23503.
\<close>

definition insert_vote :: "Vote \<Rightarrow> database \<Rightarrow> string + database" where
  "insert_vote new db =
     (if id_vote new \<in> set (map id_vote (votes_table db)) then Inl ''23505''
      else if (post_id new, user_name new)
                \<in> set (map (\<lambda>v. (post_id v, user_name v)) (votes_table db)) then Inl ''23505''
      else if post_id new \<notin> set (map id_post (posts_table db)) then Inl ''23503''
      else Inr (db\<lparr>votes_table := votes_table db @ [new]\<rparr>))"

text \<open>
  The statement \<open>handleDelete\<close> sends: \<open>DELETE FROM posts WHERE id = pid AND
  author_name = user\<close>. With \<open>ON DELETE CASCADE\<close> on \<open>votes.post_id\<close>, the votes that
  reference a deleted post are deleted with it.
\<close>

definition delete_post :: "string \<Rightarrow> string \<Rightarrow> database \<Rightarrow> database" where
  "delete_post pid user db =
     (let deleted = filter (\<lambda>p. id_post p = pid \<and> author_name p = user) (posts_table db);
          kept = filter (\<lambda>p. \<not> (id_post p = pid \<and> author_name p = user)) (posts_table db)
      in db\<lparr>posts_table := kept,
            votes_table := filter (\<lambda>v. post_id v \<notin> set (map id_post deleted)) (votes_table db)\<rparr>)"

text \<open>\<open>INSERT INTO posts\<close> (\<open>handleCreatePost\<close>): the primary key and the length check.\<close>

definition insert_post :: "PostData \<Rightarrow> database \<Rightarrow> string + database" where
  "insert_post new db =
     (if length (content new) > 500 then Inl ''23514''
      else if id_post new \<in> set (map id_post (posts_table db)) then Inl ''23505''
      else Inr (db\<lparr>posts_table := posts_table db @ [new]\<rparr>))"

text \<open>
  \<open>UPDATE posts SET content = c, image_url = u WHERE id = pid\<close> (\<open>handleSaveEdit\<close>).
\<close>

definition update_post :: "string \<Rightarrow> string \<Rightarrow> string option \<Rightarrow> database \<Rightarrow> string + database" where
  "update_post pid c u db =
     (if length c > 500 \<and> pid \<in> set (map id_post (posts_table db)) then Inl ''23514''
      else Inr (db\<lparr>posts_table :=
                 map (\<lambda>p. if id_post p = pid then p\<lparr>content := c, image_url := u\<rparr> else p)
                   (posts_table db)\<rparr>))"

text \<open>The query of \<open>fetchVotes\<close>: \<open>SELECT * FROM votes WHERE post_id = pid\<close>.\<close>

definition select_votes :: "string \<Rightarrow> database \<Rightarrow> Vote list" where
  "select_votes pid db = filter (\<lambda>v. post_id v = pid) (votes_table db)"

text \<open>
  Every statement the application sends that writes to \<open>posts\<close> or \<open>votes\<close>; a
  statement that fails leaves the tables as they were.
\<close>

datatype request =
    InsertVote Vote
  | DeletePost string string
  | InsertPost PostData
  | UpdatePost string string "string option"

definition apply_request :: "request \<Rightarrow> database \<Rightarrow> database" where
  "apply_request r db =
     (case r of
        InsertVote v \<Rightarrow> (case insert_vote v db of Inl code \<Rightarrow> db | Inr db' \<Rightarrow> db')
      | DeletePost pid user \<Rightarrow> delete_post pid user db
      | InsertPost p \<Rightarrow> (case insert_post p db of Inl code \<Rightarrow> db | Inr db' \<Rightarrow> db')
      | UpdatePost pid c u \<Rightarrow> (case update_post pid c u db of Inl code \<Rightarrow> db | Inr db' \<Rightarrow> db'))"

text \<open>
  The storage service answering the insert of \<open>handleVote\<close> on the database \<open>db\<close>,
  the new row getting the id \<open>new_id\<close>.
\<close>

definition supabase_insert_on :: "database \<Rightarrow> string \<Rightarrow> string \<Rightarrow> string \<Rightarrow> VoteType \<Rightarrow> insert_outcome" where
  "supabase_insert_on db new_id pid user vt =
     (case insert_vote \<lparr>id_vote = new_id, post_id = pid, user_name = user, vote_type = vt\<rparr> db of
        Inl code \<Rightarrow> InsertError (Some code)
      | Inr db' \<Rightarrow> InsertOk)"

text \<open>The invariant of the \<open>votes\<close> table: no two rows for one post and one voter.\<close>

definition one_vote_per_voter :: "database \<Rightarrow> bool" where
  "one_vote_per_voter db = distinct (map (\<lambda>v. (post_id v, user_name v)) (votes_table db))"

text \<open>
  Referential integrity of \<open>votes.post_id\<close>: every vote references a post in the
  table.
\<close>

definition votes_reference_posts :: "database \<Rightarrow> bool" where
  "votes_reference_posts db = (set (map post_id (votes_table db)) \<subseteq> set (map id_post (posts_table db)))"

section \<open>Properties of the number model\<close>

lemma round_half_even_of_int: "round_half_even (of_int n) = n"
  by (simp add: round_half_even_def)

lemma round_half_even_bounds: "\<lfloor>z\<rfloor> \<le> round_half_even z \<and> round_half_even z \<le> \<lfloor>z\<rfloor> + 1"
  by (simp add: round_half_even_def Let_def)

lemma round_half_even_nonneg: "0 \<le> z \<Longrightarrow> 0 \<le> round_half_even z"
  using round_half_even_bounds [of z] by (simp add: order_trans [of 0 "\<lfloor>z\<rfloor>"])

lemma round_half_even_le:
  assumes "z \<le> of_int M"
  shows "round_half_even z \<le> M"
proof (cases "z = of_int M")
  case True
  then show ?thesis by (simp add: round_half_even_of_int)
next
  case False
  with assms have "z < of_int M" by simp
  then have "\<lfloor>z\<rfloor> < M" by (simp add: floor_less_iff)
  with round_half_even_bounds [of z] show ?thesis by linarith
qed

lemma round_half_even_tie:
  "round_half_even (of_int f + 1 / 2) = (if even f then f else f + 1)"
proof -
  have "\<lfloor>(of_int f :: rat) + 1 / 2\<rfloor> = f" by (simp add: floor_unique)
  then show ?thesis by (simp add: round_half_even_def Let_def)
qed

lemma ulp_scan_dyadic:
  "\<bar>x\<bar> < 2 ^ 53 / 2 ^ k \<Longrightarrow> k \<le> m \<Longrightarrow> m - k \<le> fuel \<Longrightarrow>
   \<exists>i. k \<le> i \<and> i \<le> m \<and> ulp_scan fuel (1 / 2 ^ m) x = 1 / 2 ^ i"
proof (induction fuel arbitrary: m)
  case 0
  then have "m = k" by simp
  then show ?case by auto
next
  case (Suc fuel)
  show ?case
  proof (cases "\<bar>x\<bar> < 2 ^ 53 * (1 / 2 ^ m)")
    case True
    with Suc.prems show ?thesis by auto
  next
    case False
    with Suc.prems(1) have "m \<noteq> k" by auto
    with Suc.prems obtain m' where m': "m = Suc m'" "k \<le> m'" "m' - k \<le> fuel"
      by (cases m) auto
    from Suc.IH [OF Suc.prems(1) m'(2,3)] obtain i
      where i: "k \<le> i" "i \<le> m'" "ulp_scan fuel (1 / 2 ^ m') x = 1 / 2 ^ i"
      by blast
    have "2 * (1 / (2::rat) ^ m) = 1 / 2 ^ m'" using m'(1) by simp
    with False i m'(1) show ?thesis by auto
  qed
qed

lemma ulp_dyadic:
  assumes "\<bar>x\<bar> < 2 ^ 53 / 2 ^ k" and "k \<le> 1074"
  shows "\<exists>i. k \<le> i \<and> ulp x = 1 / 2 ^ i"
proof -
  from assms have "1074 - k \<le> (2045::nat)" by simp
  from ulp_scan_dyadic [OF assms(1) assms(2) this] show ?thesis
    unfolding ulp_def by blast
qed

lemma ulp_scan_eq:
  "j \<le> fuel \<Longrightarrow> 0 < q \<Longrightarrow> \<bar>x\<bar> < 2 ^ 53 * (2 ^ j * q) \<Longrightarrow>
   (j = 0 \<or> 2 ^ 53 * (2 ^ (j - 1) * q) \<le> \<bar>x\<bar>) \<Longrightarrow>
   ulp_scan fuel q x = 2 ^ j * q"
proof (induction j arbitrary: fuel q)
  case 0
  then show ?case by (cases fuel) simp_all
next
  case (Suc j)
  from Suc.prems(1) obtain f where f: "fuel = Suc f" "j \<le> f" by (cases fuel) auto
  from Suc.prems(4) have low: "2 ^ 53 * (2 ^ j * q) \<le> \<bar>x\<bar>" by simp
  have "(1::rat) \<le> 2 ^ j" by simp
  with Suc.prems(2) have "q \<le> 2 ^ j * q" by (simp add: mult_le_cancel_right1)
  then have "2 ^ 53 * q \<le> 2 ^ 53 * (2 ^ j * q)" by simp
  with low have go: "\<not> \<bar>x\<bar> < 2 ^ 53 * q" by linarith
  have up: "\<bar>x\<bar> < 2 ^ 53 * (2 ^ j * (2 * q))" using Suc.prems(3) by (simp add: mult.assoc)
  have lo: "j = 0 \<or> 2 ^ 53 * (2 ^ (j - 1) * (2 * q)) \<le> \<bar>x\<bar>"
  proof (cases j)
    case 0
    then show ?thesis by simp
  next
    case (Suc j')
    with low show ?thesis by (simp add: mult.assoc mult.left_commute)
  qed
  from Suc.prems(2) have "0 < 2 * q" by simp
  from Suc.IH [OF f(2) this up lo] have "ulp_scan f (2 * q) x = 2 ^ j * (2 * q)" .
  with go f(1) show ?case by simp
qed

lemma to_double_exact:
  assumes "\<bar>n\<bar> < 2 ^ 53" and "k \<le> 1074"
  shows "to_double (of_int n / 2 ^ k) = Num (of_int n / 2 ^ k)"
proof -
  let ?x = "of_int n / 2 ^ k :: rat"
  have "\<bar>?x\<bar> = of_int \<bar>n\<bar> / 2 ^ k" by simp
  also have "\<dots> < 2 ^ 53 / 2 ^ k"
    using assms(1) by (simp add: divide_strict_right_mono)
  finally have small: "\<bar>?x\<bar> < 2 ^ 53 / 2 ^ k" .
  from ulp_dyadic [OF small assms(2)] obtain i where i: "k \<le> i" "ulp ?x = 1 / 2 ^ i"
    by blast
  from i(1) obtain d where d: "i = k + d" using le_Suc_ex by blast
  have isint: "?x / ulp ?x = of_int (n * 2 ^ d)"
    by (simp add: i(2) d power_add)
  have recon: "of_int (n * 2 ^ d) * ulp ?x = ?x"
    by (simp add: i(2) d power_add)
  have "\<bar>?x\<bar> < 2 ^ 53" 
  proof -
    have "(2::rat) ^ 53 / 2 ^ k \<le> 2 ^ 53" by (simp add: divide_le_eq_1 field_simps)
    with small show ?thesis by linarith
  qed
  also have "\<dots> < (2::rat) ^ 1024" by simp
  finally have fin: "\<bar>?x\<bar> < 2 ^ 1024" .
  then have "\<not> 2 ^ 1024 \<le> ?x" "\<not> ?x \<le> - (2 ^ 1024)" by linarith+
  then show ?thesis
    unfolding to_double_def Let_def isint round_half_even_of_int recon by simp
qed

lemma to_double_int: "\<bar>n\<bar> < 2 ^ 53 \<Longrightarrow> to_double (of_int n) = Num (of_int n)"
  using to_double_exact [of n 0] by simp

lemma to_double_half: "\<bar>n\<bar> < 2 ^ 53 \<Longrightarrow> to_double (of_int n / 2) = Num (of_int n / 2)"
  using to_double_exact [of n 1] by simp


lemma ulp_2_53:
  assumes "2 ^ 53 \<le> \<bar>x\<bar>" and "\<bar>x\<bar> < 2 ^ 54"
  shows "ulp x = 2"
proof -
  have a: "(2::rat) ^ 1075 * (1 / 2 ^ 1074) = 2" by simp
  have b: "(2::rat) ^ (1075 - 1) * (1 / 2 ^ 1074) = 1" by simp
  have "ulp_scan 2045 (1 / 2 ^ 1074) x = 2 ^ 1075 * (1 / 2 ^ 1074)"
  proof (rule ulp_scan_eq)
    show "(1075::nat) \<le> 2045" by simp
    show "(0::rat) < 1 / 2 ^ 1074" by simp
    show "\<bar>x\<bar> < 2 ^ 53 * (2 ^ 1075 * (1 / 2 ^ 1074))"
      using assms(2) by (simp only: a) simp
    show "(1075::nat) = 0 \<or> 2 ^ 53 * (2 ^ (1075 - 1) * (1 / 2 ^ 1074)) \<le> \<bar>x\<bar>"
      using assms(1) by (simp only: b) simp
  qed
  then show ?thesis by (simp only: ulp_def a)
qed

lemma to_double_2_53: "to_double (2 ^ 53) = Num (2 ^ 53)"
proof -
  have u: "ulp (2 ^ 53) = 2" by (rule ulp_2_53) simp_all
  have q: "(2::rat) ^ 53 / 2 = of_int (2 ^ 52)" by simp
  show ?thesis
    unfolding to_double_def Let_def u q round_half_even_of_int by simp
qed

lemma to_double_neg_2_53: "to_double (- (2 ^ 53)) = Num (- (2 ^ 53))"
proof -
  have u: "ulp (- (2 ^ 53)) = 2" by (rule ulp_2_53) simp_all
  have q: "- ((2::rat) ^ 53) / 2 = of_int (- (2 ^ 52))" by simp
  show ?thesis
    unfolding to_double_def Let_def u q round_half_even_of_int by simp
qed

lemma to_double_int_le:
  assumes "\<bar>n\<bar> \<le> 2 ^ 53"
  shows "to_double (of_int n) = Num (of_int n)"
proof -
  consider "\<bar>n\<bar> < 2 ^ 53" | "n = 2 ^ 53" | "n = - (2 ^ 53)" using assms by linarith
  then show ?thesis
  proof cases
    case 1
    then show ?thesis by (rule to_double_int)
  next
    case 2
    then show ?thesis using to_double_2_53 by simp
  next
    case 3
    then show ?thesis using to_double_neg_2_53 by simp
  qed
qed

lemma to_double_half_le:
  assumes "\<bar>n\<bar> \<le> 2 ^ 53"
  shows "to_double (of_int n / 2) = Num (of_int n / 2)"
proof -
  consider "\<bar>n\<bar> < 2 ^ 53" | "n = 2 ^ 53" | "n = - (2 ^ 53)" using assms by linarith
  then show ?thesis
  proof cases
    case 1
    then show ?thesis by (rule to_double_half)
  next
    case 2
    have "to_double (of_int (2 ^ 52)) = Num (of_int (2 ^ 52))" by (rule to_double_int) simp
    with 2 show ?thesis by simp
  next
    case 3
    have "to_double (of_int (- (2 ^ 52))) = Num (of_int (- (2 ^ 52)))" by (rule to_double_int) simp
    with 3 show ?thesis by simp
  qed
qed

lemma to_double_2_53_plus_1: "to_double (2 ^ 53 + 1) = Num (2 ^ 53)"
proof -
  have u: "ulp (2 ^ 53 + 1) = 2" by (rule ulp_2_53) simp_all
  have "((2::rat) ^ 53 + 1) / 2 = of_int (2 ^ 52) + 1 / 2" by simp
  then have r: "round_half_even ((2 ^ 53 + 1) / 2) = 2 ^ 52"
    by (simp only: round_half_even_tie) simp
  show ?thesis
    unfolding to_double_def Let_def u r by simp
qed

lemma to_double_range:
  assumes "0 \<le> x" and "x \<le> of_int N" and "N < 2 ^ 53"
  shows "\<exists>y. to_double x = Num y \<and> 0 \<le> y \<and> y \<le> of_int N"
proof -
  from assms have "\<bar>x\<bar> < 2 ^ 53 / 2 ^ 0"
    by (simp add: less_le_trans [of x "of_int N"] le_less_trans [of x "of_int N"])
  from ulp_dyadic [OF this] obtain i where i: "ulp x = 1 / 2 ^ i" by auto
  let ?n = "round_half_even (x / ulp x)"
  let ?y = "of_int ?n * ulp x"
  have scaled: "x / ulp x = x * 2 ^ i" by (simp add: i)
  have "0 \<le> x / ulp x" using assms(1) by (simp add: scaled)
  then have n0: "0 \<le> ?n" by (rule round_half_even_nonneg)
  have "x / ulp x \<le> of_int (N * 2 ^ i)" using assms(2) by (simp add: scaled)
  then have nN: "?n \<le> N * 2 ^ i" by (rule round_half_even_le)
  have y0: "0 \<le> ?y" using n0 by (simp add: i)
  have "of_int ?n \<le> (of_int (N * 2 ^ i) :: rat)" using nN by (simp only: of_int_le_iff)
  then have yN: "?y \<le> of_int N" by (simp add: i field_simps)
  have "(of_int N :: rat) < 2 ^ 53" using assms(3) by (metis of_int_less_iff of_int_numeral of_int_power)
  also have "\<dots> < (2::rat) ^ 1024" by simp
  finally have "?y < 2 ^ 1024" using yN by linarith
  with y0 have "to_double x = Num ?y"
    unfolding to_double_def Let_def by simp
  with y0 yN show ?thesis by blast
qed

lemma ulp_scan_spec:
  "0 < q \<Longrightarrow>
   \<exists>j. j \<le> fuel \<and> ulp_scan fuel q x = 2 ^ j * q
     \<and> (j < fuel \<longrightarrow> \<bar>x\<bar> < 2 ^ 53 * (2 ^ j * q))
     \<and> (j = 0 \<or> 2 ^ 53 * (2 ^ (j - 1) * q) \<le> \<bar>x\<bar>)"
proof (induction fuel arbitrary: q)
  case 0
  then show ?case by simp
next
  case (Suc fuel)
  show ?case
  proof (cases "\<bar>x\<bar> < 2 ^ 53 * q")
    case True
    then have "0 \<le> Suc fuel \<and> ulp_scan (Suc fuel) q x = 2 ^ 0 * q
      \<and> (0 < Suc fuel \<longrightarrow> \<bar>x\<bar> < 2 ^ 53 * (2 ^ 0 * q))
      \<and> ((0::nat) = 0 \<or> 2 ^ 53 * (2 ^ (0 - 1) * q) \<le> \<bar>x\<bar>)"
      by simp
    then show ?thesis by blast
  next
    case False
    from Suc.prems have "0 < 2 * q" by simp
    from Suc.IH [OF this] obtain j where j: "j \<le> fuel" "ulp_scan fuel (2 * q) x = 2 ^ j * (2 * q)"
      "j < fuel \<longrightarrow> \<bar>x\<bar> < 2 ^ 53 * (2 ^ j * (2 * q))"
      "j = 0 \<or> 2 ^ 53 * (2 ^ (j - 1) * (2 * q)) \<le> \<bar>x\<bar>"
      by blast
    have low: "2 ^ 53 * (2 ^ (Suc j - 1) * q) \<le> \<bar>x\<bar>"
    proof (cases j)
      case 0
      with False show ?thesis by simp
    next
      case (Suc j')
      with j(4) show ?thesis by (simp add: mult.assoc mult.left_commute)
    qed
    have "Suc j \<le> Suc fuel \<and> ulp_scan (Suc fuel) q x = 2 ^ Suc j * q
      \<and> (Suc j < Suc fuel \<longrightarrow> \<bar>x\<bar> < 2 ^ 53 * (2 ^ Suc j * q))
      \<and> (Suc j = 0 \<or> 2 ^ 53 * (2 ^ (Suc j - 1) * q) \<le> \<bar>x\<bar>)"
      using False j(1,2,3) low by (simp add: mult.assoc mult.left_commute)
    then show ?thesis by blast
  qed
qed

lemma round_half_even_abs: "\<bar>of_int (round_half_even z) - z\<bar> \<le> 1"
proof -
  have "of_int \<lfloor>z\<rfloor> \<le> z" "z < of_int \<lfloor>z\<rfloor> + 1" by linarith+
  moreover have "round_half_even z = \<lfloor>z\<rfloor> \<or> round_half_even z = \<lfloor>z\<rfloor> + 1"
    using round_half_even_bounds [of z] by linarith
  ultimately show ?thesis by auto
qed


lemma top_binade: "2 ^ 53 * (2 ^ 2045 * (1 / 2 ^ 1074)) = (2::rat) ^ 1024"
proof -
  have "(2::rat) ^ 2045 = 2 ^ 971 * 2 ^ 1074" by (simp only: power_add [symmetric]) simp
  then have "(2::rat) ^ 2045 * (1 / 2 ^ 1074) = 2 ^ 971" by simp
  then have "2 ^ 53 * (2 ^ 2045 * (1 / 2 ^ 1074)) = (2::rat) ^ 53 * 2 ^ 971" by (simp only:)
  also have "\<dots> = 2 ^ 1024" by (simp only: power_add [symmetric]) simp
  finally show ?thesis .
qed

lemma below_half: "2 ^ 53 * (1 / 2 ^ 1074) + 1 / 2 ^ 1074 < (1::rat) / 2"
proof -
  have "(2::rat) ^ 1074 = 2 ^ 55 * 2 ^ 1019" by (simp only: power_add [symmetric]) simp
  have a: "(2::rat) ^ 53 + 1 < 2 ^ 55" by simp
  have b: "(2::rat) ^ 55 \<le> 2 ^ 1073" by (rule power_increasing) simp_all
  have "((2::rat) ^ 53 + 1) / 2 ^ 1074 < 2 ^ 1073 / 2 ^ 1074"
    using a b by (intro divide_strict_right_mono) simp_all
  also have "(2::rat) ^ 1073 / 2 ^ 1074 = 1 / 2"
  proof -
    have "(2::rat) ^ 1074 = 2 ^ 1073 * 2" by (simp only: power_Suc2 [symmetric]) simp
    then show ?thesis by simp
  qed
  finally show ?thesis by (simp add: add_divide_distrib)
qed

lemma to_double_Num:
  assumes "to_double x = Num y"
  shows "y = of_int (round_half_even (x / ulp x)) * ulp x \<and> \<bar>y\<bar> < 2 ^ 1024"
proof -
  let ?y = "of_int (round_half_even (x / ulp x)) * ulp x"
  from assms have "\<not> 2 ^ 1024 \<le> ?y" "\<not> ?y \<le> - (2 ^ 1024)" "y = ?y"
    unfolding to_double_def Let_def by (auto split: if_splits)
  then show ?thesis by (simp add: abs_less_iff)
qed

lemma Math_round_half_of_double:
  assumes "to_double s = Num s"
  shows "Math_round (to_double (s / 2)) = Num (of_int \<lfloor>s / 2 + 1 / 2\<rfloor>)"
proof -
  define q0 :: rat where "q0 = 1 / 2 ^ 1074"
  have q0: "0 < q0" by (simp add: q0_def)
  have big: "(1::rat) \<le> 2 ^ 1024" by simp
  have ulp: "ulp x = ulp_scan 2045 q0 x" for x by (simp add: ulp_def q0_def)
  have top: "2 ^ 53 * (2 ^ 2045 * q0) = 2 ^ 1024" unfolding q0_def by (rule top_binade)
  have tiny: "2 ^ 53 * q0 + q0 < 1 / 2" unfolding q0_def by (rule below_half)
  have "\<exists>j. j \<le> 2045 \<and> ulp s = 2 ^ j * q0
     \<and> (j < 2045 \<longrightarrow> \<bar>s\<bar> < 2 ^ 53 * (2 ^ j * q0))
     \<and> (j = 0 \<or> 2 ^ 53 * (2 ^ (j - 1) * q0) \<le> \<bar>s\<bar>)"
    unfolding ulp by (rule ulp_scan_spec [OF q0])
  then obtain j where j: "j \<le> 2045" "ulp s = 2 ^ j * q0"
    "j < 2045 \<longrightarrow> \<bar>s\<bar> < 2 ^ 53 * (2 ^ j * q0)"
    "j = 0 \<or> 2 ^ 53 * (2 ^ (j - 1) * q0) \<le> \<bar>s\<bar>"
    by (elim exE conjE)
  define n where "n = round_half_even (s / ulp s)"
  from to_double_Num [OF assms] have s: "s = of_int n * ulp s" and fin: "\<bar>s\<bar> < 2 ^ 1024"
    unfolding n_def by simp_all
  have upper: "\<bar>s\<bar> < 2 ^ 53 * (2 ^ j * q0)"
  proof (cases "j < 2045")
    case True
    with j(3) show ?thesis by simp
  next
    case False
    with j(1) have "j = 2045" by simp
    with fin top show ?thesis by simp
  qed
  show ?thesis
  proof (cases j)
    case 0
    with upper have small: "\<bar>s\<bar> < 2 ^ 53 * q0" by simp
    then have "\<bar>s / 2\<bar> < 2 ^ 53 * (2 ^ 0 * q0)" by simp
    from ulp_scan_eq [OF _ q0 this, of 2045] have u: "ulp (s / 2) = q0"
      unfolding ulp by simp
    let ?h = "of_int (round_half_even (s / 2 / q0)) * q0"
    have sback: "s / 2 = s / 2 / q0 * q0" using q0 by simp
    have "?h - s / 2 = (of_int (round_half_even (s / 2 / q0)) - s / 2 / q0) * q0"
      by (subst sback) (simp only: left_diff_distrib)
    then have "\<bar>?h - s / 2\<bar> = \<bar>of_int (round_half_even (s / 2 / q0)) - s / 2 / q0\<bar> * q0"
      using q0 by (simp only: abs_mult abs_of_pos)
    also have "\<dots> \<le> 1 * q0"
      using round_half_even_abs [of "s / 2 / q0"] q0 by (intro mult_right_mono) simp_all
    finally have near: "\<bar>?h - s / 2\<bar> \<le> q0" by simp
    from small q0 have half_small: "\<bar>s / 2\<bar> < 2 ^ 53 * q0" by simp
    from near half_small tiny have hb: "\<bar>?h\<bar> < 1 / 2" by linarith
    from half_small tiny q0 have sb: "\<bar>s / 2\<bar> < 1 / 2" by linarith
    from hb big have "\<not> 2 ^ 1024 \<le> ?h" "\<not> ?h \<le> - (2 ^ 1024)" by linarith+
    then have td: "to_double (s / 2) = Num ?h"
      unfolding to_double_def Let_def u by simp
    from hb have "\<lfloor>?h + 1 / 2\<rfloor> = 0" by (intro floor_unique) (simp_all add: abs_less_iff)
    moreover from sb have "\<lfloor>s / 2 + 1 / 2\<rfloor> = 0" by (intro floor_unique) (simp_all add: abs_less_iff)
    ultimately show ?thesis by (simp add: td)
  next
    case (Suc j')
    with j(4) have low: "2 ^ 53 * (2 ^ j' * q0) \<le> \<bar>s\<bar>" by simp
    from upper Suc have up': "\<bar>s / 2\<bar> < 2 ^ 53 * (2 ^ j' * q0)" by simp
    have lo': "j' = 0 \<or> 2 ^ 53 * (2 ^ (j' - 1) * q0) \<le> \<bar>s / 2\<bar>"
    proof (cases j')
      case 0
      then show ?thesis by simp
    next
      case (Suc i)
      with low show ?thesis by simp
    qed
    from j(1) Suc have "j' \<le> 2045" by simp
    from ulp_scan_eq [OF this q0 up' lo'] have u: "ulp (s / 2) = 2 ^ j' * q0"
      unfolding ulp .
    have "s = of_int n * (2 ^ j' * q0) * 2"
      using s j(2) Suc by simp
    then have half: "s / 2 = of_int n * (2 ^ j' * q0)" by simp
    have pos: "2 ^ j' * q0 \<noteq> 0" using q0 by simp
    have quot: "s / 2 / (2 ^ j' * q0) = of_int n"
      by (simp only: half nonzero_mult_div_cancel_right [OF pos])
    have prod: "of_int n * (2 ^ j' * q0) = s / 2" by (simp only: half)
    from fin big have "\<not> 2 ^ 1024 \<le> s / 2" "\<not> s / 2 \<le> - (2 ^ 1024)" by linarith+
    then have "to_double (s / 2) = Num (s / 2)"
      unfolding to_double_def Let_def u quot round_half_even_of_int prod by simp
    then show ?thesis by simp
  qed
qed

section \<open>Properties of the aggregation\<close>

lemma floor_half: "\<lfloor>(of_int s :: rat) / 2 + 1 / 2\<rfloor> = (s + 1) div 2"
proof -
  have "(of_int s :: rat) / 2 + 1 / 2 = of_int (s + 1) / of_int 2"
    by (simp add: add_divide_distrib)
  then show ?thesis by (simp only: floor_divide_of_int_eq)
qed

lemma round_half: "round ((of_int a + of_int b) / 2 :: real) = (a + b + 1) div 2"
proof -
  have "(of_int a + of_int b) / 2 + 1 / 2 = (of_int (a + b + 1) :: real) / of_int 2"
    by (simp add: add_divide_distrib)
  then show ?thesis
    unfolding round_def by (simp only: floor_divide_of_int_eq)
qed

lemma avgTrueRate_int:
  assumes "true_rate a = Num (of_int m)" and "true_rate b = Num (of_int n)"
    and "\<bar>m + n\<bar> \<le> 2 ^ 53"
  shows "avgTrueRate a b = Num (of_int ((m + n + 1) div 2))"
proof -
  have "js_add (true_rate a) (true_rate b) = to_double (of_int (m + n))"
    by (simp add: assms(1,2))
  also have "\<dots> = Num (of_int (m + n))" using assms(3) by (rule to_double_int_le)
  finally have sum: "js_add (true_rate a) (true_rate b) = Num (of_int (m + n))" .
  have half: "js_div_2 (Num (of_int (m + n))) = Num (of_int (m + n) / 2)"
    by (simp only: js_div_2.simps to_double_half_le [OF assms(3)])
  show ?thesis
    by (simp only: avgTrueRate_def sum half Math_round.simps floor_half)
qed

lemma getAnalysis_true_rate: "c_true_rate (getAnalysis a b) = avgTrueRate a b"
  by (simp add: getAnalysis_def Let_def)

lemma getAnalysis_verdict:
  "c_verdict (getAnalysis a b) =
     (if js_less (Num 70) (avgTrueRate a b) then ''True''
      else if js_less (avgTrueRate a b) (Num 30) then ''False'' else ''Mixed'')"
  by (simp add: getAnalysis_def Let_def)

lemma getAnalysis_reasoning:
  "c_reasoning (getAnalysis a b) =
     map (\<lambda>r. ''OpenAI: '' @ r) (reasoning a) @ map (\<lambda>r. ''Gemini: '' @ r) (reasoning b)"
  by (simp add: getAnalysis_def Let_def)

lemma getAnalysis_models: "c_models (getAnalysis a b) = \<lparr> openai = a, gemini = b \<rparr>"
  by (simp add: getAnalysis_def Let_def)

lemma avgTrueRate_example:
  assumes "\<bar>m + n\<bar> \<le> 2 ^ 53"
  shows "avgTrueRate (a\<lparr>true_rate := Num (of_int m)\<rparr>) (b\<lparr>true_rate := Num (of_int n)\<rparr>)
     = Num (of_int ((m + n + 1) div 2))"
  by (rule avgTrueRate_int [OF _ _ assms]) simp_all

lemma avgTrueRate_exact:
  assumes "true_rate a = Num x" and "true_rate b = Num y"
    and "to_double (x + y) = Num (x + y)"
  shows "avgTrueRate a b = Num (of_int (round ((x + y) / 2)))"
proof -
  have "js_add (true_rate a) (true_rate b) = Num (x + y)"
    by (simp add: assms)
  then have "avgTrueRate a b = Math_round (to_double ((x + y) / 2))"
    by (simp add: avgTrueRate_def)
  also have "\<dots> = Num (of_int \<lfloor>(x + y) / 2 + 1 / 2\<rfloor>)"
    using assms(3) by (rule Math_round_half_of_double)
  finally show ?thesis by (simp only: round_def)
qed

lemma to_double_int_sum:
  "\<bar>m + n\<bar> \<le> 2 ^ 53 \<Longrightarrow> to_double (of_int m + of_int n) = Num (of_int m + of_int n)"
  using to_double_int_le [of "m + n"] by simp

text \<open>
  Claim C1, as the code has it. The sum of the two rates is a double addition, so the
  combined \<open>true_rate\<close> is the rounded average of the rounded sum. For every pair of
  provider results with finite rates whose sum is a double itself (the addition does
  not round), the combined \<open>true_rate\<close> is \<open>round ((x + y) / 2)\<close>, a half going up,
  and the verdict is \<open>True\<close> above 70, \<open>False\<close> below 30 and \<open>Mixed\<close> otherwise.
  Every pair of integer rates whose sum is at most \<open>2^53\<close> in magnitude is such a
  pair. For every pair of results whatever, the verdict is decided by the combined
  rate alone, with these thresholds. Rates 10 and 40 give 25 and \<open>False\<close>, rates 90
  and 90 give 90 and \<open>True\<close>, rates 50 and 50 give 50 and \<open>Mixed\<close>.
\<close>

theorem C1_getAnalysis_average_and_verdict:
  "(true_rate a = Num x \<and> true_rate b = Num y \<and> to_double (x + y) = Num (x + y) \<longrightarrow>
      c_true_rate (getAnalysis a b) = Num (of_int (round ((x + y) / 2)))
    \<and> c_verdict (getAnalysis a b) =
        (if round ((x + y) / 2) > 70 then ''True''
         else if round ((x + y) / 2) < 30 then ''False'' else ''Mixed''))
   \<and> (\<bar>m + n\<bar> \<le> 2 ^ 53 \<longrightarrow>
        to_double (of_int m + of_int n) = Num (of_int m + of_int n))
   \<and> c_verdict (getAnalysis a b) =
       (if js_less (Num 70) (c_true_rate (getAnalysis a b)) then ''True''
        else if js_less (c_true_rate (getAnalysis a b)) (Num 30) then ''False'' else ''Mixed'')
   \<and> c_true_rate (getAnalysis (a\<lparr>true_rate := Num 10\<rparr>) (b\<lparr>true_rate := Num 40\<rparr>)) = Num 25
   \<and> c_verdict (getAnalysis (a\<lparr>true_rate := Num 10\<rparr>) (b\<lparr>true_rate := Num 40\<rparr>)) = ''False''
   \<and> c_true_rate (getAnalysis (a\<lparr>true_rate := Num 90\<rparr>) (b\<lparr>true_rate := Num 90\<rparr>)) = Num 90
   \<and> c_verdict (getAnalysis (a\<lparr>true_rate := Num 90\<rparr>) (b\<lparr>true_rate := Num 90\<rparr>)) = ''True''
   \<and> c_true_rate (getAnalysis (a\<lparr>true_rate := Num 50\<rparr>) (b\<lparr>true_rate := Num 50\<rparr>)) = Num 50
   \<and> c_verdict (getAnalysis (a\<lparr>true_rate := Num 50\<rparr>) (b\<lparr>true_rate := Num 50\<rparr>)) = ''Mixed''"
proof -
  have main: "true_rate a = Num x \<and> true_rate b = Num y \<and> to_double (x + y) = Num (x + y) \<longrightarrow>
      c_true_rate (getAnalysis a b) = Num (of_int (round ((x + y) / 2)))
    \<and> c_verdict (getAnalysis a b) =
        (if round ((x + y) / 2) > 70 then ''True''
         else if round ((x + y) / 2) < 30 then ''False'' else ''Mixed'')"
  proof (intro impI, elim conjE)
    assume h: "true_rate a = Num x" "true_rate b = Num y" "to_double (x + y) = Num (x + y)"
    have avg: "avgTrueRate a b = Num (of_int (round ((x + y) / 2)))"
      using h by (rule avgTrueRate_exact)
    show "c_true_rate (getAnalysis a b) = Num (of_int (round ((x + y) / 2)))
      \<and> c_verdict (getAnalysis a b) =
        (if round ((x + y) / 2) > 70 then ''True''
         else if round ((x + y) / 2) < 30 then ''False'' else ''Mixed'')"
      by (simp add: getAnalysis_true_rate getAnalysis_verdict avg)
  qed
  have ints: "\<bar>m + n\<bar> \<le> 2 ^ 53 \<longrightarrow>
        to_double (of_int m + of_int n) = Num (of_int m + of_int n)"
    by (simp add: to_double_int_sum)
  have gen: "c_verdict (getAnalysis a b) =
       (if js_less (Num 70) (c_true_rate (getAnalysis a b)) then ''True''
        else if js_less (c_true_rate (getAnalysis a b)) (Num 30) then ''False'' else ''Mixed'')"
    by (simp only: getAnalysis_true_rate getAnalysis_verdict)
  have e1: "avgTrueRate (a\<lparr>true_rate := Num 10\<rparr>) (b\<lparr>true_rate := Num 40\<rparr>) = Num 25"
    using avgTrueRate_example [of 10 40 a b] by simp
  have e2: "avgTrueRate (a\<lparr>true_rate := Num 90\<rparr>) (b\<lparr>true_rate := Num 90\<rparr>) = Num 90"
    using avgTrueRate_example [of 90 90 a b] by simp
  have e3: "avgTrueRate (a\<lparr>true_rate := Num 50\<rparr>) (b\<lparr>true_rate := Num 50\<rparr>) = Num 50"
    using avgTrueRate_example [of 50 50 a b] by simp
  have ex: "c_true_rate (getAnalysis (a\<lparr>true_rate := Num 10\<rparr>) (b\<lparr>true_rate := Num 40\<rparr>)) = Num 25"
    "c_verdict (getAnalysis (a\<lparr>true_rate := Num 10\<rparr>) (b\<lparr>true_rate := Num 40\<rparr>)) = ''False''"
    "c_true_rate (getAnalysis (a\<lparr>true_rate := Num 90\<rparr>) (b\<lparr>true_rate := Num 90\<rparr>)) = Num 90"
    "c_verdict (getAnalysis (a\<lparr>true_rate := Num 90\<rparr>) (b\<lparr>true_rate := Num 90\<rparr>)) = ''True''"
    "c_true_rate (getAnalysis (a\<lparr>true_rate := Num 50\<rparr>) (b\<lparr>true_rate := Num 50\<rparr>)) = Num 50"
    "c_verdict (getAnalysis (a\<lparr>true_rate := Num 50\<rparr>) (b\<lparr>true_rate := Num 50\<rparr>)) = ''Mixed''"
    by (simp_all add: getAnalysis_true_rate getAnalysis_verdict e1 e2 e3)
  from main ints gen ex show ?thesis by (intro conjI)
qed

text \<open>
  An instance where the average is a half: rates 25 and 30 average to 27.5, which
  \<open>Math.round\<close> takes up to 28, still below 30.
\<close>

theorem C1_getAnalysis_average_and_verdict_witness:
  "c_true_rate (getAnalysis
      \<lparr>verdict = ''Mixed'', true_rate = Num 25, reasoning = [], sources = []\<rparr>
      \<lparr>verdict = ''False'', true_rate = Num 30, reasoning = [], sources = []\<rparr>) = Num 28
   \<and> c_verdict (getAnalysis
      \<lparr>verdict = ''Mixed'', true_rate = Num 25, reasoning = [], sources = []\<rparr>
      \<lparr>verdict = ''False'', true_rate = Num 30, reasoning = [], sources = []\<rparr>) = ''False''"
proof -
  let ?a = "\<lparr>verdict = ''Mixed'', true_rate = Num 25, reasoning = [], sources = []\<rparr>"
  let ?b = "\<lparr>verdict = ''False'', true_rate = Num 30, reasoning = [], sources = []\<rparr>"
  note inst = C1_getAnalysis_average_and_verdict
    [where a = ?a and b = ?b and x = 25 and y = 30 and m = 25 and n = 30]
  have small: "\<bar>(25::int) + 30\<bar> \<le> 2 ^ 53" by simp
  from inst [THEN conjunct2, THEN conjunct1, THEN mp, OF small]
  have exact: "to_double (25 + 30) = Num (25 + 30)" by simp
  have rates: "true_rate ?a = Num 25" "true_rate ?b = Num 30" by simp_all
  have r: "round ((25 + 30) / 2 :: rat) = 28" by (simp add: round_def)
  from rates exact
  have h: "true_rate ?a = Num 25 \<and> true_rate ?b = Num 30 \<and> to_double (25 + 30) = Num (25 + 30)"
    by (intro conjI)
  from inst [THEN conjunct1, THEN mp, OF h] show ?thesis unfolding r by simp
qed

text \<open>
  Where the addition rounds, the claim as first stated fails: the rates \<open>2^53\<close> and
  1 have the sum \<open>2^53 + 1\<close>, which is no double and is rounded to \<open>2^53\<close>; the
  code returns \<open>2^52\<close>, whereas the rounded exact average is \<open>2^52 + 1\<close>.
\<close>

theorem C1_counterexample:
  "c_true_rate (getAnalysis
      \<lparr>verdict = ''True'', true_rate = Num 9007199254740992, reasoning = [], sources = []\<rparr>
      \<lparr>verdict = ''True'', true_rate = Num 1, reasoning = [], sources = []\<rparr>)
     = Num 4503599627370496
   \<and> round ((9007199254740992 + 1) / 2 :: real) = 4503599627370497
   \<and> c_true_rate (getAnalysis
      \<lparr>verdict = ''True'', true_rate = Num 9007199254740992, reasoning = [], sources = []\<rparr>
      \<lparr>verdict = ''True'', true_rate = Num 1, reasoning = [], sources = []\<rparr>)
     \<noteq> Num (of_int (round ((9007199254740992 + 1) / 2 :: real)))"
proof -
  let ?a = "\<lparr>verdict = ''True'', true_rate = Num 9007199254740992, reasoning = [], sources = []\<rparr>"
  let ?b = "\<lparr>verdict = ''True'', true_rate = Num 1, reasoning = [], sources = []\<rparr>"
  have sum: "js_add (true_rate ?a) (true_rate ?b) = Num (2 ^ 53)"
    using to_double_2_53_plus_1 by simp
  have half: "js_div_2 (Num (2 ^ 53)) = Num (of_int (2 ^ 52))"
    using to_double_int [of "2 ^ 52"] by simp
  have fl: "\<lfloor>(of_int (2 ^ 52) :: rat) + 1 / 2\<rfloor> = 2 ^ 52" by (simp add: floor_unique)
  have code: "c_true_rate (getAnalysis ?a ?b) = Num 4503599627370496"
    unfolding getAnalysis_true_rate avgTrueRate_def sum half Math_round.simps fl by simp
  have "round ((real_of_int 9007199254740992 + real_of_int 1) / 2) = 4503599627370497"
    unfolding round_half by simp
  then have spec: "round ((9007199254740992 + 1) / 2 :: real) = 4503599627370497" by simp
  from code spec show ?thesis by simp
qed

text \<open>
  Claim C8. The combined reasoning list is the OpenAI result's lines, each prefixed
  with \<open>OpenAI: \<close>, in their order, followed by the Gemini result's lines, each
  prefixed with \<open>Gemini: \<close>, in their order: the list has the length of both
  together, position \<open>i\<close> of the first part holds the prefixed \<open>i\<close>-th OpenAI line,
  and position \<open>length + j\<close> holds the prefixed \<open>j\<close>-th Gemini line.
\<close>

theorem C8_getAnalysis_reasoning_order:
  "c_reasoning (getAnalysis a b) =
     map (\<lambda>r. ''OpenAI: '' @ r) (reasoning a) @ map (\<lambda>r. ''Gemini: '' @ r) (reasoning b)
   \<and> length (c_reasoning (getAnalysis a b)) = length (reasoning a) + length (reasoning b)
   \<and> (\<forall>i < length (reasoning a).
        c_reasoning (getAnalysis a b) ! i = ''OpenAI: '' @ reasoning a ! i)
   \<and> (\<forall>j < length (reasoning b).
        c_reasoning (getAnalysis a b) ! (length (reasoning a) + j) = ''Gemini: '' @ reasoning b ! j)"
  by (simp add: getAnalysis_reasoning nth_append)

theorem C8_getAnalysis_reasoning_order_witness:
  "c_reasoning (getAnalysis
      \<lparr>verdict = ''True'', true_rate = Num 80, reasoning = [''a'', ''b''], sources = []\<rparr>
      \<lparr>verdict = ''True'', true_rate = Num 90, reasoning = [''c''], sources = []\<rparr>)
     = [''OpenAI: a'', ''OpenAI: b'', ''Gemini: c'']
   \<and> c_reasoning (getAnalysis
      \<lparr>verdict = ''True'', true_rate = Num 80, reasoning = [''a'', ''b''], sources = []\<rparr>
      \<lparr>verdict = ''True'', true_rate = Num 90, reasoning = [''c''], sources = []\<rparr>) ! 2
     = ''Gemini: c''"
  using C8_getAnalysis_reasoning_order
    [of "\<lparr>verdict = ''True'', true_rate = Num 80, reasoning = [''a'', ''b''], sources = []\<rparr>"
        "\<lparr>verdict = ''True'', true_rate = Num 90, reasoning = [''c''], sources = []\<rparr>"]
  by simp

text \<open>
  Claim C10. When both provider rates lie in \<open>[0, 100]\<close>, the combined rate lies in
  \<open>[0, 100]\<close> and the combined verdict is one of \<open>True\<close>, \<open>False\<close>, \<open>Mixed\<close>. The two
  provider results go into the \<open>models\<close> field as they are, and their verdict
  strings have no influence on the combined rate and verdict.
\<close>

theorem C10_getAnalysis_range:
  assumes "true_rate a = Num x" and "0 \<le> x" and "x \<le> 100"
    and "true_rate b = Num y" and "0 \<le> y" and "y \<le> 100"
  shows "(\<exists>r. c_true_rate (getAnalysis a b) = Num (of_int r) \<and> 0 \<le> r \<and> r \<le> 100)
   \<and> c_verdict (getAnalysis a b) \<in> {''True'', ''False'', ''Mixed''}
   \<and> c_models (getAnalysis a b) = \<lparr> openai = a, gemini = b \<rparr>
   \<and> c_true_rate (getAnalysis (a\<lparr>verdict := v\<rparr>) (b\<lparr>verdict := w\<rparr>)) = c_true_rate (getAnalysis a b)
   \<and> c_verdict (getAnalysis (a\<lparr>verdict := v\<rparr>) (b\<lparr>verdict := w\<rparr>)) = c_verdict (getAnalysis a b)"
proof -
  have "0 \<le> x + y" "x + y \<le> of_int 200" using assms by simp_all
  from to_double_range [OF this] obtain s
    where s: "to_double (x + y) = Num s" "0 \<le> s" "s \<le> of_int 200" by auto
  from s(2,3) have "0 \<le> s / 2" "s / 2 \<le> of_int 100" by simp_all
  from to_double_range [OF this] obtain h
    where h: "to_double (s / 2) = Num h" "0 \<le> h" "h \<le> of_int 100" by auto
  have avg: "avgTrueRate a b = Num (of_int \<lfloor>h + 1 / 2\<rfloor>)"
    by (simp add: avgTrueRate_def assms(1,4) s(1) h(1))
  have lo: "0 \<le> \<lfloor>h + 1 / 2\<rfloor>" using h(2) by simp
  have "h + 1 / 2 < of_int 101" using h(3) by simp
  then have "\<lfloor>h + 1 / 2\<rfloor> < 101" by (simp only: floor_less_iff)
  then have hi: "\<lfloor>h + 1 / 2\<rfloor> \<le> 100" by simp
  from avg lo hi have rate: "\<exists>r. c_true_rate (getAnalysis a b) = Num (of_int r) \<and> 0 \<le> r \<and> r \<le> 100"
    by (auto simp add: getAnalysis_true_rate)
  have ver: "c_verdict (getAnalysis a b) \<in> {''True'', ''False'', ''Mixed''}"
    by (simp add: getAnalysis_verdict)
  have same: "avgTrueRate (a\<lparr>verdict := v\<rparr>) (b\<lparr>verdict := w\<rparr>) = avgTrueRate a b"
    by (simp add: avgTrueRate_def)
  have r: "c_true_rate (getAnalysis (a\<lparr>verdict := v\<rparr>) (b\<lparr>verdict := w\<rparr>))
      = c_true_rate (getAnalysis a b)"
    by (simp only: getAnalysis_true_rate same)
  have vd: "c_verdict (getAnalysis (a\<lparr>verdict := v\<rparr>) (b\<lparr>verdict := w\<rparr>))
      = c_verdict (getAnalysis a b)"
    by (simp only: getAnalysis_verdict same)
  from rate ver getAnalysis_models [of a b] r vd show ?thesis by (intro conjI)
qed

theorem C10_getAnalysis_range_witness:
  "c_true_rate (getAnalysis
      \<lparr>verdict = ''banana'', true_rate = Num 100, reasoning = [], sources = []\<rparr>
      \<lparr>verdict = [], true_rate = Num 99, reasoning = [], sources = []\<rparr>) = Num 100
   \<and> c_verdict (getAnalysis
      \<lparr>verdict = ''banana'', true_rate = Num 100, reasoning = [], sources = []\<rparr>
      \<lparr>verdict = [], true_rate = Num 99, reasoning = [], sources = []\<rparr>) = ''True''"
proof -
  let ?a = "\<lparr>verdict = ''banana'', true_rate = Num 100, reasoning = [], sources = []\<rparr>"
  let ?b = "\<lparr>verdict = [], true_rate = Num 99, reasoning = [], sources = []\<rparr>"
  have h: "true_rate ?a = Num 100" "(0::rat) \<le> 100" "(100::rat) \<le> 100"
    "true_rate ?b = Num 99" "(0::rat) \<le> 99" "(99::rat) \<le> 100"
    by simp_all
  have "c_verdict (getAnalysis ?a ?b) \<in> {''True'', ''False'', ''Mixed''}"
    using C10_getAnalysis_range [OF h] by blast
  moreover have avg: "avgTrueRate ?a ?b = Num 100"
    using avgTrueRate_int [of ?a 100 ?b 99] by simp
  moreover have "c_true_rate (getAnalysis ?a ?b) = Num 100"
    by (simp only: getAnalysis_true_rate avg)
  moreover have "c_verdict (getAnalysis ?a ?b) = ''True''"
    by (simp add: getAnalysis_verdict avg)
  ultimately show ?thesis by simp
qed

section \<open>Properties of the provider calls\<close>

lemma try_catch_total: "\<exists>r. try_catch body (\<lambda>error. Inr p) = Inr r"
  by (cases body) (simp_all add: try_catch_def)

lemma try_catch_Inl: "try_catch (Inl e) handler = handler e"
  by (simp add: try_catch_def)

lemma try_catch_Inr: "try_catch (Inr x) handler = Inr x"
  by (simp add: try_catch_def)

lemma analyzeWithOpenAI_total: "\<exists>r. analyzeWithOpenAI oc P d c w = Inr r"
  by (cases oc) (simp_all add: analyzeWithOpenAI_def try_catch_total)

lemma analyzeWithGemini_total: "\<exists>r. analyzeWithGemini gc P d c w = Inr r"
  by (cases gc) (simp_all add: analyzeWithGemini_def try_catch_total)

lemma analyzeWithOpenAI_throws:
  "create (openai_prompt d c w) = Inl e \<Longrightarrow>
   analyzeWithOpenAI (Some create) P d c w = Inr (placeholder ''OpenAI analysis temporarily unavailable'')"
  by (simp add: analyzeWithOpenAI_def try_catch_Inl)

lemma analyzeWithOpenAI_parsed:
  "create (openai_prompt d c w) = Inr (ChatCompletion (msg # cs)) \<Longrightarrow>
   analyzeWithOpenAI (Some create) P d c w =
     try_catch (case P (content_or msg ''{}'') of Inl e \<Rightarrow> Inl e | Inr result \<Rightarrow> normalized result)
       (\<lambda>error. Inr (placeholder ''OpenAI analysis temporarily unavailable''))"
  by (simp add: analyzeWithOpenAI_def)

lemma analyzeWithGemini_throws:
  "generateContent (gemini_prompt d c w) = Inl e \<Longrightarrow>
   analyzeWithGemini (Some generateContent) P d c w = Inr (placeholder ''Gemini analysis temporarily unavailable'')"
  by (simp add: analyzeWithGemini_def try_catch_Inl)

lemma analyzeWithGemini_no_match:
  "generateContent (gemini_prompt d c w) = Inr text \<Longrightarrow> jsonMatch text = None \<Longrightarrow>
   analyzeWithGemini (Some generateContent) P d c w = Inr (placeholder ''Gemini analysis temporarily unavailable'')"
  by (simp add: analyzeWithGemini_def try_catch_Inl)

lemma analyzeWithGemini_parsed:
  "generateContent (gemini_prompt d c w) = Inr text \<Longrightarrow> jsonMatch text = Some m \<Longrightarrow>
   analyzeWithGemini (Some generateContent) P d c w =
     try_catch (case P m of Inl e \<Rightarrow> Inl e | Inr parsed \<Rightarrow> normalized parsed)
       (\<lambda>error. Inr (placeholder ''Gemini analysis temporarily unavailable''))"
  by (simp add: analyzeWithGemini_def)

lemma normalized_JObj:
  "normalized (JObj kvs) =
     Inr \<lparr> js_verdict = js_or (map_of (rev kvs) ''verdict'') (JStr ''Mixed''),
           js_true_rate = js_or (map_of (rev kvs) ''true_rate'') (JNum 50),
           js_reasoning = js_or (map_of (rev kvs) ''reasoning'') (JArr [JStr ''Analysis unavailable'']),
           js_sources = js_or (map_of (rev kvs) ''sources'') (JArr []) \<rparr>"
  by (simp add: normalized_def)

lemma normalized_empty: "normalized (JObj []) = Inr (placeholder ''Analysis unavailable'')"
  by (simp add: normalized_JObj js_or_def placeholder_def)








text \<open>
  Claim C4. For every claim text and web context (and every provider behaviour and
  date), \<open>analyzeWithOpenAI\<close> and \<open>analyzeWithGemini\<close> return a result and never
  throw. When the client was never configured, when the call throws, and when the
  response has no parseable JSON (\<open>JSON.parse\<close> throws, or the Gemini text has no
  braces to match), the result is the placeholder: verdict \<open>Mixed\<close>, rate 50, one
  explanatory reasoning line, no sources. An OpenAI completion with empty content
  is parsed as \<open>{}\<close> and gives a result of the same shape.
\<close>

theorem C4_provider_calls_never_throw:
  "(\<exists>r. analyzeWithOpenAI oc P d c w = Inr r)
   \<and> (\<exists>r. analyzeWithGemini gc P d c w = Inr r)
   \<and> analyzeWithOpenAI None P d c w = Inr (placeholder ''OpenAI API key not configured'')
   \<and> analyzeWithGemini None P d c w = Inr (placeholder ''Gemini API key not configured'')
   \<and> (create (openai_prompt d c w) = Inl e \<longrightarrow>
        analyzeWithOpenAI (Some create) P d c w =
          Inr (placeholder ''OpenAI analysis temporarily unavailable''))
   \<and> (generateContent (gemini_prompt d c w) = Inl e \<longrightarrow>
        analyzeWithGemini (Some generateContent) P d c w =
          Inr (placeholder ''Gemini analysis temporarily unavailable''))
   \<and> (create (openai_prompt d c w) = Inr (ChatCompletion (msg # cs))
        \<and> P (content_or msg ''{}'') = Inl e \<longrightarrow>
        analyzeWithOpenAI (Some create) P d c w =
          Inr (placeholder ''OpenAI analysis temporarily unavailable''))
   \<and> (create (openai_prompt d c w) = Inr (ChatCompletion (msg # cs))
        \<and> (msg = None \<or> msg = Some []) \<and> P ''{}'' = Inr (JObj []) \<longrightarrow>
        analyzeWithOpenAI (Some create) P d c w = Inr (placeholder ''Analysis unavailable''))
   \<and> (generateContent (gemini_prompt d c w) = Inr resp \<and> jsonMatch resp = None \<longrightarrow>
        analyzeWithGemini (Some generateContent) P d c w =
          Inr (placeholder ''Gemini analysis temporarily unavailable''))
   \<and> (generateContent (gemini_prompt d c w) = Inr resp \<and> jsonMatch resp = Some m
        \<and> P m = Inl e \<longrightarrow>
        analyzeWithGemini (Some generateContent) P d c w =
          Inr (placeholder ''Gemini analysis temporarily unavailable''))
   \<and> placeholder line =
        \<lparr> js_verdict = JStr ''Mixed'', js_true_rate = JNum 50,
          js_reasoning = JArr [JStr line], js_sources = JArr [] \<rparr>"
proof -
  have o_none: "analyzeWithOpenAI None P d c w = Inr (placeholder ''OpenAI API key not configured'')"
    by (simp add: analyzeWithOpenAI_def)
  have g_none: "analyzeWithGemini None P d c w = Inr (placeholder ''Gemini API key not configured'')"
    by (simp add: analyzeWithGemini_def)
  have o_throw: "create (openai_prompt d c w) = Inl e \<longrightarrow>
        analyzeWithOpenAI (Some create) P d c w =
          Inr (placeholder ''OpenAI analysis temporarily unavailable'')"
    by (simp add: analyzeWithOpenAI_throws)
  have g_throw: "generateContent (gemini_prompt d c w) = Inl e \<longrightarrow>
        analyzeWithGemini (Some generateContent) P d c w =
          Inr (placeholder ''Gemini analysis temporarily unavailable'')"
    by (simp add: analyzeWithGemini_throws)
  have o_parse: "create (openai_prompt d c w) = Inr (ChatCompletion (msg # cs))
        \<and> P (content_or msg ''{}'') = Inl e \<longrightarrow>
        analyzeWithOpenAI (Some create) P d c w =
          Inr (placeholder ''OpenAI analysis temporarily unavailable'')"
    by (simp add: analyzeWithOpenAI_parsed try_catch_Inl)
  have o_empty: "create (openai_prompt d c w) = Inr (ChatCompletion (msg # cs))
        \<and> (msg = None \<or> msg = Some []) \<and> P ''{}'' = Inr (JObj []) \<longrightarrow>
        analyzeWithOpenAI (Some create) P d c w = Inr (placeholder ''Analysis unavailable'')"
    by (auto simp add: analyzeWithOpenAI_parsed content_or_def normalized_empty try_catch_Inr)
  have g_nomatch: "generateContent (gemini_prompt d c w) = Inr resp \<and> jsonMatch resp = None \<longrightarrow>
        analyzeWithGemini (Some generateContent) P d c w =
          Inr (placeholder ''Gemini analysis temporarily unavailable'')"
    by (simp add: analyzeWithGemini_no_match)
  have g_parse: "generateContent (gemini_prompt d c w) = Inr resp \<and> jsonMatch resp = Some m
        \<and> P m = Inl e \<longrightarrow>
        analyzeWithGemini (Some generateContent) P d c w =
          Inr (placeholder ''Gemini analysis temporarily unavailable'')"
    by (simp add: analyzeWithGemini_parsed try_catch_Inl)
  from analyzeWithOpenAI_total [of oc P d c w] analyzeWithGemini_total [of gc P d c w]
    o_none g_none o_throw g_throw o_parse o_empty g_nomatch g_parse placeholder_def [of line]
  show ?thesis by (intro conjI)
qed

theorem C4_provider_calls_never_throw_witness:
  "analyzeWithOpenAI (Some (\<lambda>prompt. Inl (ProviderError ''429''))) (\<lambda>s. Inl SyntaxError)
      ''2025-01-01'' ''The moon is made of cheese'' ''Web search unavailable; using model knowledge.''
     = Inr \<lparr> js_verdict = JStr ''Mixed'', js_true_rate = JNum 50,
             js_reasoning = JArr [JStr ''OpenAI analysis temporarily unavailable''],
             js_sources = JArr [] \<rparr>
   \<and> analyzeWithOpenAI (Some (\<lambda>prompt. Inr (ChatCompletion [Some ''not json'']))) (\<lambda>s. Inl SyntaxError)
      ''2025-01-01'' ''The moon is made of cheese'' ''Web search unavailable; using model knowledge.''
     = Inr \<lparr> js_verdict = JStr ''Mixed'', js_true_rate = JNum 50,
             js_reasoning = JArr [JStr ''OpenAI analysis temporarily unavailable''],
             js_sources = JArr [] \<rparr>
   \<and> analyzeWithOpenAI (Some (\<lambda>prompt. Inr (ChatCompletion [None])))
      (\<lambda>s. if s = ''{}'' then Inr (JObj []) else Inl SyntaxError)
      ''2025-01-01'' ''The moon is made of cheese'' ''Web search unavailable; using model knowledge.''
     = Inr \<lparr> js_verdict = JStr ''Mixed'', js_true_rate = JNum 50,
             js_reasoning = JArr [JStr ''Analysis unavailable''],
             js_sources = JArr [] \<rparr>
   \<and> analyzeWithGemini (Some (\<lambda>prompt. Inl (ProviderError ''503''))) (\<lambda>s. Inl SyntaxError)
      ''2025-01-01'' ''The moon is made of cheese'' ''Web search unavailable; using model knowledge.''
     = Inr \<lparr> js_verdict = JStr ''Mixed'', js_true_rate = JNum 50,
             js_reasoning = JArr [JStr ''Gemini analysis temporarily unavailable''],
             js_sources = JArr [] \<rparr>
   \<and> analyzeWithGemini (Some (\<lambda>prompt. Inr ''I cannot check this. }{'')) (\<lambda>s. Inl SyntaxError)
      ''2025-01-01'' ''The moon is made of cheese'' ''Web search unavailable; using model knowledge.''
     = Inr \<lparr> js_verdict = JStr ''Mixed'', js_true_rate = JNum 50,
             js_reasoning = JArr [JStr ''Gemini analysis temporarily unavailable''],
             js_sources = JArr [] \<rparr>
   \<and> analyzeWithGemini (Some (\<lambda>prompt. Inr ''Sure: {verdict: maybe}'')) (\<lambda>s. Inl SyntaxError)
      ''2025-01-01'' ''The moon is made of cheese'' ''Web search unavailable; using model knowledge.''
     = Inr \<lparr> js_verdict = JStr ''Mixed'', js_true_rate = JNum 50,
             js_reasoning = JArr [JStr ''Gemini analysis temporarily unavailable''],
             js_sources = JArr [] \<rparr>"
proof -
  let ?d = "''2025-01-01''" and ?c = "''The moon is made of cheese''"
  let ?w = "''Web search unavailable; using model knowledge.''"
  let ?bad = "\<lambda>s::string. Inl SyntaxError :: error + json"
  have nomatch: "jsonMatch ''I cannot check this. }{'' = None"
    by (simp add: jsonMatch_def)
  have match: "jsonMatch ''Sure: {verdict: maybe}'' = Some ''{verdict: maybe}''"
    by (simp add: jsonMatch_def)
  note thrown = C4_provider_calls_never_throw
    [where create = "\<lambda>prompt. Inl (ProviderError ''429'')" and e = "ProviderError ''429''"
       and generateContent = "\<lambda>prompt. Inl (ProviderError ''429'')"
       and P = ?bad and d = ?d and c = ?c and w = ?w]
  note thrown' = C4_provider_calls_never_throw
    [where generateContent = "\<lambda>prompt. Inl (ProviderError ''503'')" and e = "ProviderError ''503''"
       and P = ?bad and d = ?d and c = ?c and w = ?w]
  note unparsed = C4_provider_calls_never_throw
    [where create = "\<lambda>prompt. Inr (ChatCompletion [Some ''not json''])"
       and msg = "Some ''not json''" and cs = "[]" and e = SyntaxError
       and generateContent = "\<lambda>prompt. Inr ''Sure: {verdict: maybe}''"
       and resp = "''Sure: {verdict: maybe}''" and m = "''{verdict: maybe}''"
       and P = ?bad and d = ?d and c = ?c and w = ?w]
  note empty = C4_provider_calls_never_throw
    [where create = "\<lambda>prompt. Inr (ChatCompletion [None])"
       and msg = None and cs = "[]"
       and generateContent = "\<lambda>prompt. Inr ''I cannot check this. }{''"
       and resp = "''I cannot check this. }{''"
       and P = "\<lambda>s. if s = ''{}'' then Inr (JObj []) else Inl SyntaxError"
       and d = ?d and c = ?c and w = ?w]
  note nomatch' = C4_provider_calls_never_throw
    [where generateContent = "\<lambda>prompt. Inr ''I cannot check this. }{''"
       and resp = "''I cannot check this. }{''"
       and P = ?bad and d = ?d and c = ?c and w = ?w]
  from thrown have a: "analyzeWithOpenAI (Some (\<lambda>prompt. Inl (ProviderError ''429''))) ?bad ?d ?c ?w
      = Inr (placeholder ''OpenAI analysis temporarily unavailable'')"
    by simp
  from unparsed have b: "analyzeWithOpenAI (Some (\<lambda>prompt. Inr (ChatCompletion [Some ''not json'']))) ?bad ?d ?c ?w
      = Inr (placeholder ''OpenAI analysis temporarily unavailable'')"
    by simp
  from empty have c: "analyzeWithOpenAI (Some (\<lambda>prompt. Inr (ChatCompletion [None])))
      (\<lambda>s. if s = ''{}'' then Inr (JObj []) else Inl SyntaxError) ?d ?c ?w
      = Inr (placeholder ''Analysis unavailable'')"
    by simp
  from thrown' have d: "analyzeWithGemini (Some (\<lambda>prompt. Inl (ProviderError ''503''))) ?bad ?d ?c ?w
      = Inr (placeholder ''Gemini analysis temporarily unavailable'')"
    by simp
  from nomatch' nomatch have e: "analyzeWithGemini (Some (\<lambda>prompt. Inr ''I cannot check this. }{'')) ?bad ?d ?c ?w
      = Inr (placeholder ''Gemini analysis temporarily unavailable'')"
    by simp
  from unparsed match have f: "analyzeWithGemini (Some (\<lambda>prompt. Inr ''Sure: {verdict: maybe}'')) ?bad ?d ?c ?w
      = Inr (placeholder ''Gemini analysis temporarily unavailable'')"
    by simp
  from a b c d e f show ?thesis by (simp add: placeholder_def)
qed



section \<open>Properties of the vote handling and tally\<close>

lemma tally_split:
  "length (filter (\<lambda>v. vote_type v = VTrue) xs) + length (filter (\<lambda>v. vote_type v = VFake) xs) = length xs"
proof (induction xs)
  case Nil
  then show ?case by simp
next
  case (Cons x xs)
  then show ?case by (cases "vote_type x") simp_all
qed

lemma trueVotes_eq:
  "trueVotes u s =
     length (filter (\<lambda>v. user_name v \<noteq> u \<and> vote_type v = VTrue) (votes s))
     + (if (case optimisticVote s of Some v \<Rightarrow> Some v | None \<Rightarrow> userVote s) = Some VTrue then 1 else 0)"
  by (simp add: trueVotes_def baseVotes_def currentUserVote_def conj_commute)

lemma fakeVotes_eq:
  "fakeVotes u s =
     length (filter (\<lambda>v. user_name v \<noteq> u \<and> vote_type v = VFake) (votes s))
     + (if (case optimisticVote s of Some v \<Rightarrow> Some v | None \<Rightarrow> userVote s) = Some VFake then 1 else 0)"
  by (simp add: fakeVotes_def baseVotes_def currentUserVote_def conj_commute)

lemma currentUserVote_count:
  "(if currentUserVote s = Some VTrue then 1 else 0) + (if currentUserVote s = Some VFake then 1 else 0)
     = (if optimisticVote s = None \<and> userVote s = None then 0 else (1::nat))"
proof (cases "optimisticVote s")
  case None
  show ?thesis
  proof (cases "userVote s")
    case None
    with \<open>optimisticVote s = None\<close> show ?thesis by (simp add: currentUserVote_def)
  next
    case (Some v)
    with \<open>optimisticVote s = None\<close> show ?thesis by (cases v) (simp_all add: currentUserVote_def)
  qed
next
  case (Some v)
  then show ?thesis by (cases v) (simp_all add: currentUserVote_def)
qed

lemma tally_total:
  "trueVotes u s + fakeVotes u s =
     length (filter (\<lambda>v. user_name v \<noteq> u) (votes s))
     + (if optimisticVote s = None \<and> userVote s = None then 0 else 1)"
proof -
  have "trueVotes u s + fakeVotes u s =
      (length (filter (\<lambda>v. vote_type v = VTrue) (baseVotes u s))
       + length (filter (\<lambda>v. vote_type v = VFake) (baseVotes u s)))
      + ((if currentUserVote s = Some VTrue then 1 else 0) + (if currentUserVote s = Some VFake then 1 else 0))"
    by (simp add: trueVotes_def fakeVotes_def)
  also have "\<dots> = length (baseVotes u s) + (if optimisticVote s = None \<and> userVote s = None then 0 else 1)"
    by (simp only: tally_split currentUserVote_count)
  finally show ?thesis by (simp add: baseVotes_def)
qed

lemma handleVote_blocked:
  "isVoting s \<or> userVote s \<noteq> None \<or> optimisticVote s \<noteq> None \<Longrightarrow> handleVote i u ins vt s = (s, [])"
  by (simp add: handleVote_def)

lemma handleVote_open:
  "\<not> isVoting s \<Longrightarrow> userVote s = None \<Longrightarrow> optimisticVote s = None \<Longrightarrow>
   handleVote i u ins vt s =
     (fst (after_insert (ins i u vt) (s\<lparr>optimisticVote := Some vt, isVoting := True\<rparr>)),
      SupabaseInsert i u vt # snd (after_insert (ins i u vt) (s\<lparr>optimisticVote := Some vt, isVoting := True\<rparr>)))"
  by (simp add: handleVote_def Let_def split: prod.splits)

lemma after_insert_duplicate:
  "after_insert (InsertError (Some ''23505'')) s = (s\<lparr>optimisticVote := None, isVoting := False\<rparr>, [ConsoleError])"
  by (simp add: after_insert_def)

lemma after_insert_other:
  "code \<noteq> Some ''23505'' \<Longrightarrow> after_insert (InsertError code) s =
     (s\<lparr>optimisticVote := None, isVoting := False\<rparr>, [ConsoleError, Alert ''Failed to submit vote. Please try again.''])"
  by (simp add: after_insert_def)

lemma after_insert_throws:
  "after_insert InsertThrows s =
     (s\<lparr>optimisticVote := None, isVoting := False\<rparr>, [ConsoleError, Alert ''An unexpected error occurred. Please try again.''])"
  by (simp add: after_insert_def)

lemma insert_vote_duplicate:
  "(post_id v, user_name v) \<in> set (map (\<lambda>v. (post_id v, user_name v)) (votes_table db)) \<Longrightarrow>
   insert_vote v db = Inl ''23505''"
  by (simp add: insert_vote_def)

lemma insert_vote_Inr:
  "insert_vote v db = Inr db' \<Longrightarrow>
    db' = db\<lparr>votes_table := votes_table db @ [v]\<rparr>
    \<and> (post_id v, user_name v) \<notin> set (map (\<lambda>v. (post_id v, user_name v)) (votes_table db))
    \<and> post_id v \<in> set (map id_post (posts_table db))"
  by (auto simp add: insert_vote_def split: if_splits)

lemma insert_post_Inr: "insert_post p db = Inr db' \<Longrightarrow> db' = db\<lparr>posts_table := posts_table db @ [p]\<rparr>"
  by (auto simp add: insert_post_def split: if_splits)

lemma update_post_Inr: "update_post pid c u db = Inr db' \<Longrightarrow>
   votes_table db' = votes_table db \<and> map id_post (posts_table db') = map id_post (posts_table db)"
  by (auto simp add: update_post_def split: if_splits)

lemma votes_table_apply_request:
  "votes_table (apply_request r db) = votes_table db
   \<or> (\<exists>v. r = InsertVote v \<and> insert_vote v db = Inr (apply_request r db) \<and> votes_table (apply_request r db) = votes_table db @ [v])
   \<or> (\<exists>pid user. r = DeletePost pid user \<and> votes_table (apply_request r db) = 
        filter (\<lambda>v. post_id v \<notin> set (map id_post (filter (\<lambda>p. id_post p = pid \<and> author_name p = user) (posts_table db)))) (votes_table db))"
proof (cases r)
  case (InsertVote v)
  then show ?thesis 
    by (cases "insert_vote v db") (auto simp add: apply_request_def dest: insert_vote_Inr)
next
  case (DeletePost pid user)
  then show ?thesis by (simp add: apply_request_def delete_post_def Let_def)
next
  case (InsertPost p)
  then show ?thesis
    by (cases "insert_post p db") (auto simp add: apply_request_def dest: insert_post_Inr)
next
  case (UpdatePost pid c u)
  then show ?thesis
    by (cases "update_post pid c u db") (auto simp add: apply_request_def dest: update_post_Inr)
qed

lemma one_vote_per_voter_step:
  assumes "one_vote_per_voter db"
  shows "one_vote_per_voter (apply_request r db)"
proof -
  consider (same) "votes_table (apply_request r db) = votes_table db"
    | (ins) v where "insert_vote v db = Inr (apply_request r db)" "votes_table (apply_request r db) = votes_table db @ [v]"
    | (del) P where "votes_table (apply_request r db) = filter P (votes_table db)"
    using votes_table_apply_request [of r db] by blast
  then show ?thesis
  proof cases
    case same
    with assms show ?thesis by (simp add: one_vote_per_voter_def)
  next
    case ins
    from insert_vote_Inr [OF ins(1)] assms ins(2) show ?thesis
      by (simp add: one_vote_per_voter_def)
  next
    case del
    with assms show ?thesis
      by (simp add: one_vote_per_voter_def distinct_map_filter)
  qed
qed

lemma one_vote_per_voter_fold:
  "one_vote_per_voter db \<Longrightarrow> one_vote_per_voter (fold apply_request rs db)"
  by (induction rs arbitrary: db) (simp_all add: one_vote_per_voter_step)

lemma votes_never_updated:
  "set (votes_table (apply_request r db)) \<subseteq> set (votes_table db) \<union> (case r of InsertVote v \<Rightarrow> {v} | _ \<Rightarrow> {})"
  using votes_table_apply_request [of r db] by auto

text \<open>
  Claim C2. For every local vote list, confirmed vote and optimistic vote, the two
  displayed tallies are the numbers of \<open>true\<close> and of \<open>fake\<close> votes among the votes
  of other users, plus one in the bucket of the effective vote: the optimistic vote
  when there is one, else the confirmed vote, else nothing. Together the tallies are
  the number of other users' votes plus at most one, so the current user is never
  counted twice, also when the vote list holds a row of that user while the
  optimistic marker is set.
\<close>

theorem C2_tally:
  "trueVotes u s =
     length (filter (\<lambda>v. user_name v \<noteq> u \<and> vote_type v = VTrue) (votes s))
     + (if (case optimisticVote s of Some v \<Rightarrow> Some v | None \<Rightarrow> userVote s) = Some VTrue then 1 else 0)
   \<and> fakeVotes u s =
     length (filter (\<lambda>v. user_name v \<noteq> u \<and> vote_type v = VFake) (votes s))
     + (if (case optimisticVote s of Some v \<Rightarrow> Some v | None \<Rightarrow> userVote s) = Some VFake then 1 else 0)
   \<and> trueVotes u s + fakeVotes u s =
     length (filter (\<lambda>v. user_name v \<noteq> u) (votes s))
     + (if optimisticVote s = None \<and> userVote s = None then 0 else 1)"
  using trueVotes_eq [of u s] fakeVotes_eq [of u s] tally_total [of u s] by (intro conjI)

theorem C2_tally_witness:
  "trueVotes ''alice''
     \<lparr>votes = [\<lparr>id_vote = ''v1'', post_id = ''p'', user_name = ''bob'', vote_type = VTrue\<rparr>,
               \<lparr>id_vote = ''v2'', post_id = ''p'', user_name = ''alice'', vote_type = VTrue\<rparr>,
               \<lparr>id_vote = ''v3'', post_id = ''p'', user_name = ''carol'', vote_type = VFake\<rparr>],
      userVote = Some VTrue, isVoting = True, optimisticVote = Some VTrue\<rparr> = 2
   \<and> fakeVotes ''alice''
     \<lparr>votes = [\<lparr>id_vote = ''v1'', post_id = ''p'', user_name = ''bob'', vote_type = VTrue\<rparr>,
               \<lparr>id_vote = ''v2'', post_id = ''p'', user_name = ''alice'', vote_type = VTrue\<rparr>,
               \<lparr>id_vote = ''v3'', post_id = ''p'', user_name = ''carol'', vote_type = VFake\<rparr>],
      userVote = Some VTrue, isVoting = True, optimisticVote = Some VTrue\<rparr> = 1"
  using C2_tally [of "''alice''"
     "\<lparr>votes = [\<lparr>id_vote = ''v1'', post_id = ''p'', user_name = ''bob'', vote_type = VTrue\<rparr>,
               \<lparr>id_vote = ''v2'', post_id = ''p'', user_name = ''alice'', vote_type = VTrue\<rparr>,
               \<lparr>id_vote = ''v3'', post_id = ''p'', user_name = ''carol'', vote_type = VFake\<rparr>],
      userVote = Some VTrue, isVoting = True, optimisticVote = Some VTrue\<rparr>"]
  by simp

text \<open>
  Claim C3. In every state with a confirmed vote, a pending optimistic vote or a vote
  request in flight, \<open>handleVote\<close> returns at once: the state is unchanged and no
  insert (no effect at all) is issued. And should an insert for a user who has a vote
  on the post reach the storage layer all the same, it fails with code 23505 and the
  table stays as it was, so a second vote is never stored.
\<close>

theorem C3_handleVote_blocked:
  "(isVoting s \<or> userVote s \<noteq> None \<or> optimisticVote s \<noteq> None \<longrightarrow>
      handleVote i u ins vt s = (s, []))
   \<and> ((pid, u) \<in> set (map (\<lambda>v. (post_id v, user_name v)) (votes_table db)) \<longrightarrow>
        supabase_insert_on db n pid u vt = InsertError (Some ''23505'')
      \<and> apply_request (InsertVote \<lparr>id_vote = n, post_id = pid, user_name = u, vote_type = vt\<rparr>) db = db)"
proof (intro conjI impI)
  assume "isVoting s \<or> userVote s \<noteq> None \<or> optimisticVote s \<noteq> None"
  then show "handleVote i u ins vt s = (s, [])" by (rule handleVote_blocked)
next
  let ?v = "\<lparr>id_vote = n, post_id = pid, user_name = u, vote_type = vt\<rparr>"
  assume "(pid, u) \<in> set (map (\<lambda>v. (post_id v, user_name v)) (votes_table db))"
  then have dup: "insert_vote ?v db = Inl ''23505''"
    by (intro insert_vote_duplicate) simp
  from dup show "supabase_insert_on db n pid u vt = InsertError (Some ''23505'')"
    by (simp add: supabase_insert_on_def)
  from dup show "apply_request (InsertVote ?v) db = db"
    by (simp add: apply_request_def)
qed

theorem C3_handleVote_blocked_witness:
  "handleVote ''p'' ''alice'' (\<lambda>pid user vt. InsertOk) VFake
      \<lparr>votes = [], userVote = Some VTrue, isVoting = False, optimisticVote = None\<rparr>
     = (\<lparr>votes = [], userVote = Some VTrue, isVoting = False, optimisticVote = None\<rparr>, [])
   \<and> supabase_insert_on
       \<lparr>posts_table = [], votes_table = [\<lparr>id_vote = ''v1'', post_id = ''p'', user_name = ''alice'', vote_type = VTrue\<rparr>]\<rparr>
       ''v2'' ''p'' ''alice'' VFake = InsertError (Some ''23505'')"
  using C3_handleVote_blocked [of
      "\<lparr>votes = [], userVote = Some VTrue, isVoting = False, optimisticVote = None\<rparr>"
      "''p''" "''alice''" "\<lambda>pid user vt. InsertOk" VFake "''p''"
      "\<lparr>posts_table = [], votes_table = [\<lparr>id_vote = ''v1'', post_id = ''p'', user_name = ''alice'', vote_type = VTrue\<rparr>]\<rparr>"
      "''v2''"]
  by simp

text \<open>
  Claim C5. The \<open>votes\<close> table never holds two rows for one post and one voter:
  every statement keeps this, so it holds after every sequence of statements on the
  empty database, and an insert for a pair that is present fails with code 23505.
  When the insert of \<open>handleVote\<close> fails with that code, the optimistic marker is
  cleared and nothing but a console line follows (no alert); when it fails with any
  other code or none, or throws, the marker is cleared and an alert is shown.
\<close>

theorem C5_duplicate_vote_silent:
  "(one_vote_per_voter db \<longrightarrow> one_vote_per_voter (apply_request r db))
   \<and> one_vote_per_voter (fold apply_request rs \<lparr>posts_table = [], votes_table = []\<rparr>)
   \<and> ((post_id v, user_name v) \<in> set (map (\<lambda>v. (post_id v, user_name v)) (votes_table db)) \<longrightarrow>
        insert_vote v db = Inl ''23505'')
   \<and> after_insert (InsertError (Some ''23505'')) s =
        (s\<lparr>optimisticVote := None, isVoting := False\<rparr>, [ConsoleError])
   \<and> (code \<noteq> Some ''23505'' \<longrightarrow> after_insert (InsertError code) s =
        (s\<lparr>optimisticVote := None, isVoting := False\<rparr>,
         [ConsoleError, Alert ''Failed to submit vote. Please try again.'']))
   \<and> after_insert InsertThrows s =
        (s\<lparr>optimisticVote := None, isVoting := False\<rparr>,
         [ConsoleError, Alert ''An unexpected error occurred. Please try again.''])
   \<and> (\<not> isVoting s \<and> userVote s = None \<and> optimisticVote s = None
        \<and> ins i u vt = InsertError (Some ''23505'') \<longrightarrow>
        handleVote i u ins vt s =
          (s\<lparr>optimisticVote := None, isVoting := False\<rparr>, [SupabaseInsert i u vt, ConsoleError]))
   \<and> (\<not> isVoting s \<and> userVote s = None \<and> optimisticVote s = None
        \<and> ins i u vt = InsertError code \<and> code \<noteq> Some ''23505'' \<longrightarrow>
        handleVote i u ins vt s =
          (s\<lparr>optimisticVote := None, isVoting := False\<rparr>,
           [SupabaseInsert i u vt, ConsoleError, Alert ''Failed to submit vote. Please try again.'']))
   \<and> (\<not> isVoting s \<and> userVote s = None \<and> optimisticVote s = None
        \<and> ins i u vt = InsertThrows \<longrightarrow>
        handleVote i u ins vt s =
          (s\<lparr>optimisticVote := None, isVoting := False\<rparr>,
           [SupabaseInsert i u vt, ConsoleError, Alert ''An unexpected error occurred. Please try again.'']))"
proof -
  have inv: "one_vote_per_voter db \<longrightarrow> one_vote_per_voter (apply_request r db)"
    by (simp add: one_vote_per_voter_step)
  have reach: "one_vote_per_voter (fold apply_request rs \<lparr>posts_table = [], votes_table = []\<rparr>)"
    by (rule one_vote_per_voter_fold) (simp add: one_vote_per_voter_def)
  have dup: "(post_id v, user_name v) \<in> set (map (\<lambda>v. (post_id v, user_name v)) (votes_table db)) \<longrightarrow>
        insert_vote v db = Inl ''23505''"
    by (simp add: insert_vote_duplicate)
  have other: "code \<noteq> Some ''23505'' \<longrightarrow> after_insert (InsertError code) s =
        (s\<lparr>optimisticVote := None, isVoting := False\<rparr>,
         [ConsoleError, Alert ''Failed to submit vote. Please try again.''])"
    by (simp add: after_insert_other)
  have h1: "\<not> isVoting s \<and> userVote s = None \<and> optimisticVote s = None
        \<and> ins i u vt = InsertError (Some ''23505'') \<longrightarrow>
        handleVote i u ins vt s =
          (s\<lparr>optimisticVote := None, isVoting := False\<rparr>, [SupabaseInsert i u vt, ConsoleError])"
    by (simp add: handleVote_open after_insert_duplicate)
  have h2: "\<not> isVoting s \<and> userVote s = None \<and> optimisticVote s = None
        \<and> ins i u vt = InsertError code \<and> code \<noteq> Some ''23505'' \<longrightarrow>
        handleVote i u ins vt s =
          (s\<lparr>optimisticVote := None, isVoting := False\<rparr>,
           [SupabaseInsert i u vt, ConsoleError, Alert ''Failed to submit vote. Please try again.''])"
    by (simp add: handleVote_open after_insert_other)
  have h3: "\<not> isVoting s \<and> userVote s = None \<and> optimisticVote s = None
        \<and> ins i u vt = InsertThrows \<longrightarrow>
        handleVote i u ins vt s =
          (s\<lparr>optimisticVote := None, isVoting := False\<rparr>,
           [SupabaseInsert i u vt, ConsoleError, Alert ''An unexpected error occurred. Please try again.''])"
    by (simp add: handleVote_open after_insert_throws)
  from inv reach dup after_insert_duplicate [of s] other after_insert_throws [of s] h1 h2 h3
  show ?thesis by (intro conjI)
qed

theorem C5_duplicate_vote_silent_witness:
  "handleVote ''p'' ''alice''
      (supabase_insert_on
         \<lparr>posts_table = [\<lparr>id_post = ''p'', author_name = ''bob'', content = ''claim'',
                           image_url = None, created_at = ''2025-09-28''\<rparr>],
          votes_table = [\<lparr>id_vote = ''v1'', post_id = ''p'', user_name = ''alice'', vote_type = VTrue\<rparr>]\<rparr>
         ''v2'')
      VFake \<lparr>votes = [], userVote = None, isVoting = False, optimisticVote = None\<rparr>
     = (\<lparr>votes = [], userVote = None, isVoting = False, optimisticVote = None\<rparr>,
        [SupabaseInsert ''p'' ''alice'' VFake, ConsoleError])
   \<and> handleVote ''p'' ''alice'' (\<lambda>pid user vt. InsertError None)
      VFake \<lparr>votes = [], userVote = None, isVoting = False, optimisticVote = None\<rparr>
     = (\<lparr>votes = [], userVote = None, isVoting = False, optimisticVote = None\<rparr>,
        [SupabaseInsert ''p'' ''alice'' VFake, ConsoleError,
         Alert ''Failed to submit vote. Please try again.''])
   \<and> handleVote ''p'' ''alice'' (\<lambda>pid user vt. InsertThrows)
      VFake \<lparr>votes = [], userVote = None, isVoting = False, optimisticVote = None\<rparr>
     = (\<lparr>votes = [], userVote = None, isVoting = False, optimisticVote = None\<rparr>,
        [SupabaseInsert ''p'' ''alice'' VFake, ConsoleError,
         Alert ''An unexpected error occurred. Please try again.''])
   \<and> insert_vote \<lparr>id_vote = ''v2'', post_id = ''p'', user_name = ''alice'', vote_type = VFake\<rparr>
        \<lparr>posts_table = [\<lparr>id_post = ''p'', author_name = ''bob'', content = ''claim'',
                           image_url = None, created_at = ''2025-09-28''\<rparr>],
          votes_table = [\<lparr>id_vote = ''v1'', post_id = ''p'', user_name = ''alice'', vote_type = VTrue\<rparr>]\<rparr>
     = Inl ''23505''
   \<and> one_vote_per_voter (apply_request
        (InsertVote \<lparr>id_vote = ''v3'', post_id = ''p'', user_name = ''carol'', vote_type = VFake\<rparr>)
        \<lparr>posts_table = [\<lparr>id_post = ''p'', author_name = ''bob'', content = ''claim'',
                           image_url = None, created_at = ''2025-09-28''\<rparr>],
          votes_table = [\<lparr>id_vote = ''v1'', post_id = ''p'', user_name = ''alice'', vote_type = VTrue\<rparr>]\<rparr>)"
proof -
  let ?db = "\<lparr>posts_table = [\<lparr>id_post = ''p'', author_name = ''bob'', content = ''claim'',
                           image_url = None, created_at = ''2025-09-28''\<rparr>],
          votes_table = [\<lparr>id_vote = ''v1'', post_id = ''p'', user_name = ''alice'', vote_type = VTrue\<rparr>]\<rparr>"
  let ?s = "\<lparr>votes = [], userVote = None, isVoting = False, optimisticVote = None\<rparr>"
  let ?v2 = "\<lparr>id_vote = ''v2'', post_id = ''p'', user_name = ''alice'', vote_type = VFake\<rparr>"
  let ?v3 = "\<lparr>id_vote = ''v3'', post_id = ''p'', user_name = ''carol'', vote_type = VFake\<rparr>"
  have dup: "supabase_insert_on ?db ''v2'' ''p'' ''alice'' VFake = InsertError (Some ''23505'')"
    by (simp add: supabase_insert_on_def insert_vote_def)
  have inv: "one_vote_per_voter ?db"
    by (simp add: one_vote_per_voter_def)
  have present: "(post_id ?v2, user_name ?v2) \<in> set (map (\<lambda>v. (post_id v, user_name v)) (votes_table ?db))"
    by simp
  from dup C5_duplicate_vote_silent
    [where s = ?s and ins = "supabase_insert_on ?db ''v2''" and i = "''p''" and u = "''alice''"
       and vt = VFake]
  have a: "handleVote ''p'' ''alice'' (supabase_insert_on ?db ''v2'') VFake ?s
     = (?s, [SupabaseInsert ''p'' ''alice'' VFake, ConsoleError])"
    by simp
  from C5_duplicate_vote_silent
    [where s = ?s and ins = "\<lambda>pid user vt. InsertError None" and i = "''p''" and u = "''alice''"
       and vt = VFake and code = None]
  have b: "handleVote ''p'' ''alice'' (\<lambda>pid user vt. InsertError None) VFake ?s
     = (?s, [SupabaseInsert ''p'' ''alice'' VFake, ConsoleError,
         Alert ''Failed to submit vote. Please try again.''])"
    by simp
  from C5_duplicate_vote_silent
    [where s = ?s and ins = "\<lambda>pid user vt. InsertThrows" and i = "''p''" and u = "''alice''"
       and vt = VFake]
  have c: "handleVote ''p'' ''alice'' (\<lambda>pid user vt. InsertThrows) VFake ?s
     = (?s, [SupabaseInsert ''p'' ''alice'' VFake, ConsoleError,
         Alert ''An unexpected error occurred. Please try again.''])"
    by simp
  from present C5_duplicate_vote_silent [where v = ?v2 and db = ?db]
  have d: "insert_vote ?v2 ?db = Inl ''23505''"
    by blast
  from inv C5_duplicate_vote_silent [where db = ?db and r = "InsertVote ?v3"]
  have e: "one_vote_per_voter (apply_request (InsertVote ?v3) ?db)"
    by blast
  from a b c d e show ?thesis by (intro conjI)
qed

section \<open>Properties of the feed and of the storage layer\<close>

lemma delete_post_select:
  assumes "pid \<in> set (map id_post (posts_table db))"
    and "pid \<notin> set (map id_post (posts_table (delete_post pid user db)))"
  shows "select_votes pid (delete_post pid user db) = []"
proof -
  from assms(1) obtain p where p: "p \<in> set (posts_table db)" "id_post p = pid" by auto
  have "author_name p = user"
  proof (rule ccontr)
    assume "author_name p \<noteq> user"
    with p have "p \<in> set (posts_table (delete_post pid user db))"
      by (simp add: delete_post_def Let_def)
    with p(2) assms(2) show False by auto
  qed
  with p have "pid \<in> set (map id_post (filter (\<lambda>p. id_post p = pid \<and> author_name p = user) (posts_table db)))"
    by auto
  then show ?thesis
    by (auto simp add: select_votes_def delete_post_def Let_def filter_empty_conv)
qed

lemma select_votes_missing_post:
  "votes_reference_posts db \<Longrightarrow> pid \<notin> set (map id_post (posts_table db)) \<Longrightarrow> select_votes pid db = []"
  by (auto simp add: votes_reference_posts_def select_votes_def filter_empty_conv)

lemma votes_reference_posts_step:
  assumes "votes_reference_posts db"
  shows "votes_reference_posts (apply_request r db)"
proof (cases r)
  case (InsertVote v)
  show ?thesis
  proof (cases "insert_vote v db")
    case (Inl code)
    with InsertVote assms show ?thesis by (simp add: apply_request_def)
  next
    case (Inr db')
    from insert_vote_Inr [OF Inr] assms InsertVote Inr show ?thesis
      by (auto simp add: apply_request_def votes_reference_posts_def)
  qed
next
  case (DeletePost pid user)
  have "post_id v \<in> set (map id_post (posts_table (delete_post pid user db)))"
    if "v \<in> set (votes_table (delete_post pid user db))" for v
  proof -
    from that have v: "v \<in> set (votes_table db)"
      and nd: "post_id v \<notin> set (map id_post (filter (\<lambda>p. id_post p = pid \<and> author_name p = user) (posts_table db)))"
      by (simp_all add: delete_post_def Let_def)
    from v assms obtain p where p: "p \<in> set (posts_table db)" "id_post p = post_id v"
      by (auto simp add: votes_reference_posts_def)
    with nd have "\<not> (id_post p = pid \<and> author_name p = user)" by auto
    with p show ?thesis by (auto simp add: delete_post_def Let_def intro!: image_eqI [where x = p])
  qed
  with DeletePost show ?thesis
    by (auto simp add: apply_request_def votes_reference_posts_def)
next
  case (InsertPost p)
  show ?thesis
  proof (cases "insert_post p db")
    case (Inl code)
    with InsertPost assms show ?thesis by (simp add: apply_request_def)
  next
    case (Inr db')
    from insert_post_Inr [OF Inr] assms InsertPost Inr show ?thesis
      by (auto simp add: apply_request_def votes_reference_posts_def)
  qed
next
  case (UpdatePost pid c u)
  show ?thesis
  proof (cases "update_post pid c u db")
    case (Inl code)
    with UpdatePost assms show ?thesis by (simp add: apply_request_def)
  next
    case (Inr db')
    from update_post_Inr [OF Inr] assms UpdatePost Inr show ?thesis
      by (simp add: apply_request_def votes_reference_posts_def)
  qed
qed

lemma votes_reference_posts_fold:
  "votes_reference_posts db \<Longrightarrow> votes_reference_posts (fold apply_request rs db)"
  by (induction rs arbitrary: db) (simp_all add: votes_reference_posts_step)

lemma feed_insert: "subscribeToFeed (INSERT new) posts = new # posts"
  by (simp add: subscribeToFeed_def)

lemma feed_delete: "subscribeToFeed (DELETE old_id) posts = filter (\<lambda>post. id_post post \<noteq> old_id) posts"
  by (simp add: subscribeToFeed_def)

lemma feed_update_length: "length (subscribeToFeed (UPDATE new) posts) = length posts"
  by (simp add: subscribeToFeed_def)

lemma feed_update_nth:
  "i < length posts \<Longrightarrow> subscribeToFeed (UPDATE new) posts ! i = (if id_post (posts ! i) = id_post new then new else posts ! i)"
  by (simp add: subscribeToFeed_def)

lemma feed_delete_subseq: "subseq (subscribeToFeed (DELETE old_id) posts) posts"
  by (simp add: feed_delete)

text \<open>
  Claim C6. For every list of posts, an \<open>INSERT\<close> event puts the new post in front
  of the list; a \<open>DELETE\<close> event removes the posts whose id is the event's old id and
  nothing else, the remaining posts keeping their order; an \<open>UPDATE\<close> event keeps
  the length of the list and replaces, at its position, each entry whose id is the
  new row's id, every other position keeping its entry.
\<close>

theorem C6_feed_reconciliation:
  "subscribeToFeed (INSERT new) posts = new # posts
   \<and> subscribeToFeed (DELETE old_id) posts = filter (\<lambda>post. id_post post \<noteq> old_id) posts
   \<and> subseq (subscribeToFeed (DELETE old_id) posts) posts
   \<and> (\<forall>p. p \<in> set (subscribeToFeed (DELETE old_id) posts) \<longleftrightarrow> p \<in> set posts \<and> id_post p \<noteq> old_id)
   \<and> length (subscribeToFeed (UPDATE new) posts) = length posts
   \<and> (\<forall>i < length posts.
        subscribeToFeed (UPDATE new) posts ! i =
          (if id_post (posts ! i) = id_post new then new else posts ! i))"
  by (simp add: feed_insert feed_delete feed_update_length feed_update_nth)

theorem C6_feed_reconciliation_witness:
  "subscribeToFeed
      (UPDATE \<lparr>id_post = ''b'', author_name = ''bob'', content = ''edited'', image_url = None, created_at = ''t2''\<rparr>)
      [\<lparr>id_post = ''c'', author_name = ''carol'', content = ''third'', image_url = None, created_at = ''t3''\<rparr>,
       \<lparr>id_post = ''b'', author_name = ''bob'', content = ''second'', image_url = None, created_at = ''t2''\<rparr>,
       \<lparr>id_post = ''a'', author_name = ''alice'', content = ''first'', image_url = None, created_at = ''t1''\<rparr>] ! 1
     = \<lparr>id_post = ''b'', author_name = ''bob'', content = ''edited'', image_url = None, created_at = ''t2''\<rparr>
   \<and> subscribeToFeed (DELETE ''b'')
      [\<lparr>id_post = ''c'', author_name = ''carol'', content = ''third'', image_url = None, created_at = ''t3''\<rparr>,
       \<lparr>id_post = ''b'', author_name = ''bob'', content = ''second'', image_url = None, created_at = ''t2''\<rparr>,
       \<lparr>id_post = ''a'', author_name = ''alice'', content = ''first'', image_url = None, created_at = ''t1''\<rparr>]
     = [\<lparr>id_post = ''c'', author_name = ''carol'', content = ''third'', image_url = None, created_at = ''t3''\<rparr>,
        \<lparr>id_post = ''a'', author_name = ''alice'', content = ''first'', image_url = None, created_at = ''t1''\<rparr>]"
proof -
  let ?new = "\<lparr>id_post = ''b'', author_name = ''bob'', content = ''edited'', image_url = None, created_at = ''t2''\<rparr>"
  let ?posts = "[\<lparr>id_post = ''c'', author_name = ''carol'', content = ''third'', image_url = None, created_at = ''t3''\<rparr>,
       \<lparr>id_post = ''b'', author_name = ''bob'', content = ''second'', image_url = None, created_at = ''t2''\<rparr>,
       \<lparr>id_post = ''a'', author_name = ''alice'', content = ''first'', image_url = None, created_at = ''t1''\<rparr>]"
  note inst = C6_feed_reconciliation [of ?new ?posts "''b''"]
  have one: "(1::nat) < length ?posts" by simp
  from inst have "\<forall>i < length ?posts.
        subscribeToFeed (UPDATE ?new) ?posts ! i =
          (if id_post (?posts ! i) = id_post ?new then ?new else ?posts ! i)"
    by blast
  with one have "subscribeToFeed (UPDATE ?new) ?posts ! 1 =
          (if id_post (?posts ! 1) = id_post ?new then ?new else ?posts ! 1)"
    by blast
  then have u: "subscribeToFeed (UPDATE ?new) ?posts ! 1 = ?new" by simp
  from inst have "subscribeToFeed (DELETE ''b'') ?posts = filter (\<lambda>post. id_post post \<noteq> ''b'') ?posts"
    by blast
  then have d: "subscribeToFeed (DELETE ''b'') ?posts = [?posts ! 0, ?posts ! 2]" by simp
  from u d show ?thesis by simp
qed

text \<open>
  Claim C7. When a delete removes the post \<open>pid\<close>, the votes referencing it go with
  it: the vote query for \<open>pid\<close> is empty afterwards. Every vote references a post
  that exists, in every state reached from the empty database, so the query for a
  post id that is absent is empty in all later states too. Votes are never updated:
  after any statement of the application each vote row was there before, unchanged,
  or is the row just inserted.
\<close>

theorem C7_cascade_delete:
  "(pid \<in> set (map id_post (posts_table db))
      \<and> pid \<notin> set (map id_post (posts_table (delete_post pid user db))) \<longrightarrow>
      select_votes pid (delete_post pid user db) = [])
   \<and> (votes_reference_posts db \<longrightarrow> votes_reference_posts (apply_request r db))
   \<and> votes_reference_posts (fold apply_request rs \<lparr>posts_table = [], votes_table = []\<rparr>)
   \<and> (votes_reference_posts db \<and> pid \<notin> set (map id_post (posts_table db)) \<longrightarrow>
        select_votes pid db = [])
   \<and> set (votes_table (apply_request r db))
        \<subseteq> set (votes_table db) \<union> (case r of InsertVote v \<Rightarrow> {v} | _ \<Rightarrow> {})"
proof -
  have del: "pid \<in> set (map id_post (posts_table db))
      \<and> pid \<notin> set (map id_post (posts_table (delete_post pid user db))) \<longrightarrow>
      select_votes pid (delete_post pid user db) = []"
    using delete_post_select [of pid db user] by blast
  have step: "votes_reference_posts db \<longrightarrow> votes_reference_posts (apply_request r db)"
    by (simp add: votes_reference_posts_step)
  have reach: "votes_reference_posts (fold apply_request rs \<lparr>posts_table = [], votes_table = []\<rparr>)"
    by (rule votes_reference_posts_fold) (simp add: votes_reference_posts_def)
  have missing: "votes_reference_posts db \<and> pid \<notin> set (map id_post (posts_table db)) \<longrightarrow>
        select_votes pid db = []"
    using select_votes_missing_post [of db pid] by blast
  from del step reach missing votes_never_updated [of r db] show ?thesis by (intro conjI)
qed

theorem C7_cascade_delete_witness:
  "select_votes ''p''
     (delete_post ''p'' ''bob''
        \<lparr>posts_table = [\<lparr>id_post = ''p'', author_name = ''bob'', content = ''claim'',
                           image_url = None, created_at = ''2025-09-28''\<rparr>],
          votes_table = [\<lparr>id_vote = ''v1'', post_id = ''p'', user_name = ''alice'', vote_type = VTrue\<rparr>,
                         \<lparr>id_vote = ''v2'', post_id = ''p'', user_name = ''carol'', vote_type = VFake\<rparr>]\<rparr>) = []
   \<and> select_votes ''p''
        \<lparr>posts_table = [\<lparr>id_post = ''p'', author_name = ''bob'', content = ''claim'',
                           image_url = None, created_at = ''2025-09-28''\<rparr>],
          votes_table = [\<lparr>id_vote = ''v1'', post_id = ''p'', user_name = ''alice'', vote_type = VTrue\<rparr>,
                         \<lparr>id_vote = ''v2'', post_id = ''p'', user_name = ''carol'', vote_type = VFake\<rparr>]\<rparr>
      = [\<lparr>id_vote = ''v1'', post_id = ''p'', user_name = ''alice'', vote_type = VTrue\<rparr>,
         \<lparr>id_vote = ''v2'', post_id = ''p'', user_name = ''carol'', vote_type = VFake\<rparr>]
   \<and> votes_reference_posts (apply_request (DeletePost ''p'' ''bob'')
        \<lparr>posts_table = [\<lparr>id_post = ''p'', author_name = ''bob'', content = ''claim'',
                           image_url = None, created_at = ''2025-09-28''\<rparr>],
          votes_table = [\<lparr>id_vote = ''v1'', post_id = ''p'', user_name = ''alice'', vote_type = VTrue\<rparr>,
                         \<lparr>id_vote = ''v2'', post_id = ''p'', user_name = ''carol'', vote_type = VFake\<rparr>]\<rparr>)
   \<and> select_votes ''q''
        \<lparr>posts_table = [\<lparr>id_post = ''p'', author_name = ''bob'', content = ''claim'',
                           image_url = None, created_at = ''2025-09-28''\<rparr>],
          votes_table = [\<lparr>id_vote = ''v1'', post_id = ''p'', user_name = ''alice'', vote_type = VTrue\<rparr>,
                         \<lparr>id_vote = ''v2'', post_id = ''p'', user_name = ''carol'', vote_type = VFake\<rparr>]\<rparr>
      = []"
proof -
  let ?db = "\<lparr>posts_table = [\<lparr>id_post = ''p'', author_name = ''bob'', content = ''claim'',
                           image_url = None, created_at = ''2025-09-28''\<rparr>],
          votes_table = [\<lparr>id_vote = ''v1'', post_id = ''p'', user_name = ''alice'', vote_type = VTrue\<rparr>,
                         \<lparr>id_vote = ''v2'', post_id = ''p'', user_name = ''carol'', vote_type = VFake\<rparr>]\<rparr>"
  have before: "''p'' \<in> set (map id_post (posts_table ?db))" by simp
  have after: "''p'' \<notin> set (map id_post (posts_table (delete_post ''p'' ''bob'' ?db)))"
    by (simp add: delete_post_def)
  have fk: "votes_reference_posts ?db"
    by (simp add: votes_reference_posts_def)
  have absent: "''q'' \<notin> set (map id_post (posts_table ?db))" by simp
  from before after C7_cascade_delete [where pid = "''p''" and db = ?db and user = "''bob''"]
  have a: "select_votes ''p'' (delete_post ''p'' ''bob'' ?db) = []" by blast
  have b: "select_votes ''p'' ?db = votes_table ?db" by (simp add: select_votes_def)
  from fk C7_cascade_delete [where db = ?db and r = "DeletePost ''p'' ''bob''"]
  have c: "votes_reference_posts (apply_request (DeletePost ''p'' ''bob'') ?db)" by blast
  from fk absent C7_cascade_delete [where pid = "''q''" and db = ?db]
  have d: "select_votes ''q'' ?db = []" by blast
  from a b c d show ?thesis by simp
qed

end
